theory Spec2Isabelle
  imports Main "HOL-Library.Sublist" "HOL-Library.Log_Nat"
begin

section \<open>Strings of the host language\<close>

text \<open>
  A JavaScript string is a sequence of UTF-16 code units. Code units are written as
  integers; \<open>asc\<close> turns an ASCII literal into its code units, and a character
  outside ASCII is written by its code units in hexadecimal.
\<close>

type_synonym jsstring = "int list"

definition asc :: "string \<Rightarrow> jsstring" where
  "asc s = map of_char s"

text \<open>
  \<open>isWhiteSpace\<close> is the set that \<open>String.prototype.trim\<close> strips and that \<open>\s\<close>
  matches: the WhiteSpace and LineTerminator code points of ECMAScript.
\<close>

definition isWhiteSpace :: "int \<Rightarrow> bool" where
  "isWhiteSpace c \<longleftrightarrow>
     c = 0x09 \<or> c = 0x0A \<or> c = 0x0B \<or> c = 0x0C \<or> c = 0x0D \<or> c = 0x20 \<or> c = 0xA0
     \<or> c = 0x1680 \<or> (0x2000 \<le> c \<and> c \<le> 0x200A) \<or> c = 0x2028 \<or> c = 0x2029
     \<or> c = 0x202F \<or> c = 0x205F \<or> c = 0x3000 \<or> c = 0xFEFF"

definition trim :: "jsstring \<Rightarrow> jsstring" where
  "trim s = rev (dropWhile isWhiteSpace (rev (dropWhile isWhiteSpace s)))"

text \<open>
  \<open>toLowerCase\<close> and \<open>toUpperCase\<close> convert code unit by code unit. The conversion is
  that of Unicode on Basic Latin, the Latin-1 Supplement and Latin Extended-A (U+0000 to
  U+017F), and on every code unit outside that range whose converted form holds a
  code unit inside it: the capital sharp s, the Kelvin and the Angstrom sign for
  \<open>toLowerCase\<close>; the j with caron, U+1E96 to U+1E9A and the ligatures U+FB00 to U+FB06
  for \<open>toUpperCase\<close>. A converted form can be longer than one code unit: the capital
  I with dot above (U+0130) is lower-cased into \<open>i\<close> and a combining dot, the sharp s
  (U+00DF) is upper-cased into \<open>SS\<close>. Every other code unit is left as it is; Unicode
  converts it into code units above U+017F that are no white space, so the comparison of
  a converted text with a text of the range, and the trimming of it, are not affected.
  \<open>lowerUnit\<close> and \<open>upperUnit\<close> are the conversions into one code unit.
\<close>

definition lowerUnit :: "int \<Rightarrow> int" where
  "lowerUnit c =
     (if 0x41 \<le> c \<and> c \<le> 0x5A then c + 0x20
      else if c < 0xC0 then c
      else if c \<le> 0xDE \<and> c \<noteq> 0xD7 then c + 0x20
      else if (0x100 \<le> c \<and> c \<le> 0x12F \<or> 0x132 \<le> c \<and> c \<le> 0x137 \<or> 0x14A \<le> c \<and> c \<le> 0x177)
              \<and> c mod 2 = 0 then c + 1
      else if (0x139 \<le> c \<and> c \<le> 0x148 \<or> 0x179 \<le> c \<and> c \<le> 0x17E) \<and> c mod 2 = 1 then c + 1
      else if c = 0x178 then 0xFF
      else if c = 0x1E9E then 0xDF
      else if c = 0x212A then 0x6B
      else if c = 0x212B then 0xE5
      else c)"

definition upperUnit :: "int \<Rightarrow> int" where
  "upperUnit c =
     (if 0x61 \<le> c \<and> c \<le> 0x7A then c - 0x20
      else if c < 0xB5 then c
      else if 0xE0 \<le> c \<and> c \<le> 0xFE \<and> c \<noteq> 0xF7 then c - 0x20
      else if (0x100 \<le> c \<and> c \<le> 0x12F \<or> 0x132 \<le> c \<and> c \<le> 0x137 \<or> 0x14A \<le> c \<and> c \<le> 0x177)
              \<and> c mod 2 = 1 then c - 1
      else if (0x139 \<le> c \<and> c \<le> 0x148 \<or> 0x179 \<le> c \<and> c \<le> 0x17E) \<and> c mod 2 = 0 then c - 1
      else if c = 0xFF then 0x178
      else if c = 0xB5 then 0x39C
      else if c = 0x131 then 0x49
      else if c = 0x17F then 0x53
      else c)"

definition lowerUnits :: "int \<Rightarrow> jsstring" where
  "lowerUnits c = (if c = 0x130 then [0x69, 0x307] else [lowerUnit c])"

definition upperUnits :: "int \<Rightarrow> jsstring" where
  "upperUnits c =
     (if c < 0xDF then [upperUnit c]
      else if c = 0xDF then [0x53, 0x53]
      else if c = 0x149 then [0x2BC, 0x4E]
      else if c = 0x1F0 then [0x4A, 0x30C]
      else if c = 0x1E96 then [0x48, 0x331]
      else if c = 0x1E97 then [0x54, 0x308]
      else if c = 0x1E98 then [0x57, 0x30A]
      else if c = 0x1E99 then [0x59, 0x30A]
      else if c = 0x1E9A then [0x41, 0x2BE]
      else if c = 0xFB00 then [0x46, 0x46]
      else if c = 0xFB01 then [0x46, 0x49]
      else if c = 0xFB02 then [0x46, 0x4C]
      else if c = 0xFB03 then [0x46, 0x46, 0x49]
      else if c = 0xFB04 then [0x46, 0x46, 0x4C]
      else if c = 0xFB05 \<or> c = 0xFB06 then [0x53, 0x54]
      else [upperUnit c])"

definition toLowerCase :: "jsstring \<Rightarrow> jsstring" where
  "toLowerCase s = concat (map lowerUnits s)"

definition toUpperCase :: "jsstring \<Rightarrow> jsstring" where
  "toUpperCase s = concat (map upperUnits s)"

text \<open>\<open>s.includes(k)\<close>: \<open>k\<close> occurs in \<open>s\<close> as a contiguous run of code units.\<close>

definition includes_str :: "jsstring \<Rightarrow> jsstring \<Rightarrow> bool" where
  "includes_str s k = sublist k s"

text \<open>\<open>s.startsWith(k)\<close>, \<open>s.split(c)\<close> for a separator of one code unit, \<open>xs.join(c)\<close>.\<close>

definition startsWith :: "jsstring \<Rightarrow> jsstring \<Rightarrow> bool" where
  "startsWith s k = prefix k s"

fun split_on :: "int \<Rightarrow> jsstring \<Rightarrow> jsstring list" where
  "split_on sep [] = [[]]"
| "split_on sep (c # cs) =
     (if c = sep then [] # split_on sep cs
      else (case split_on sep cs of [] \<Rightarrow> [[c]] | x # xs \<Rightarrow> (c # x) # xs))"

fun join_with :: "int \<Rightarrow> jsstring list \<Rightarrow> jsstring" where
  "join_with sep [] = []"
| "join_with sep [x] = x"
| "join_with sep (x # y # ys) = x @ sep # join_with sep (y # ys)"

text \<open>
  \<open>parseInt(s, 10)\<close> on a string of decimal digits, which is what every call in the
  source passes: a capture of \<open>\d+\<close> or a slice of one. The result is the exact number:
  a JavaScript number is exact below \<open>2^53\<close>, and a longer run of digits, which
  JavaScript rounds to a double, is not rounded here.
\<close>

definition parseInt10 :: "jsstring \<Rightarrow> nat" where
  "parseInt10 s = foldl (\<lambda>n c. 10 * n + nat (c - 0x30)) 0 s"

text \<open>\<open>xs.findIndex(P)\<close> is \<open>-1\<close> when no element satisfies \<open>P\<close>; \<open>xs[i]\<close> is undefined out of range.\<close>

fun findIndexFrom :: "int \<Rightarrow> ('a \<Rightarrow> bool) \<Rightarrow> 'a list \<Rightarrow> int" where
  "findIndexFrom i P [] = -1"
| "findIndexFrom i P (x # xs) = (if P x then i else findIndexFrom (i + 1) P xs)"

definition findIndex :: "('a \<Rightarrow> bool) \<Rightarrow> 'a list \<Rightarrow> int" where
  "findIndex P xs = findIndexFrom 0 P xs"

definition elemAt :: "'a list \<Rightarrow> int \<Rightarrow> 'a option" where
  "elemAt xs i = (if 0 \<le> i \<and> i < int (length xs) then Some (xs ! nat i) else None)"

definition ch :: "char \<Rightarrow> int" where
  "ch c = of_char c"

section \<open>Regular expressions\<close>

text \<open>
  The regular expressions of the source are values of \<open>regex\<close>, matched by a backtracking
  matcher that follows the semantics of ECMAScript: alternatives are tried from left to
  right, a greedy quantifier tries one more iteration before it tries the rest of the
  pattern and a lazy one the other way round, an iteration of a quantifier whose minimum
  is met is rejected when it consumes nothing, and the first success is the result.
  \<open>Rep mn mx g r\<close> is \<open>r{mn,mx}\<close> (\<open>mx = None\<close> for no upper bound), greedy when \<open>g\<close>;
  \<open>Grp n r\<close> is the capture group number \<open>n\<close>; \<open>Bol\<close> and \<open>Eol\<close> are \<open>^\<close> and \<open>$\<close>.
\<close>

definition isLineTerminator :: "int \<Rightarrow> bool" where
  "isLineTerminator c \<longleftrightarrow> c = 0x0A \<or> c = 0x0D \<or> c = 0x2028 \<or> c = 0x2029"

definition isDigit :: "int \<Rightarrow> bool" where
  "isDigit c \<longleftrightarrow> 0x30 \<le> c \<and> c \<le> 0x39"

datatype regex =
    Chr int
  | Cls "int \<Rightarrow> bool"
  | Bol
  | Eol
  | Eps
  | Seq regex regex
  | Alt regex regex
  | Rep nat "nat option" bool regex
  | Grp nat regex

record flags =
  ignoreCase :: bool
  multiline :: bool
  unicode :: bool

definition noFlags :: flags where
  "noFlags = \<lparr>ignoreCase = False, multiline = False, unicode = False\<rparr>"

definition flags_i :: flags where
  "flags_i = \<lparr>ignoreCase = True, multiline = False, unicode = False\<rparr>"

definition flags_im :: flags where
  "flags_im = \<lparr>ignoreCase = True, multiline = True, unicode = False\<rparr>"

definition flags_imu :: flags where
  "flags_imu = \<lparr>ignoreCase = True, multiline = True, unicode = True\<rparr>"

text \<open>
  A matcher state is the code unit before the position (\<open>None\<close> at the start of the
  text), the text still to be read, and the captures made so far, the most recent first.
\<close>

type_synonym mstate = "int option \<times> jsstring \<times> (nat \<times> jsstring) list"

definition stPrev :: "mstate \<Rightarrow> int option" where
  "stPrev st = fst st"

definition stRest :: "mstate \<Rightarrow> jsstring" where
  "stRest st = fst (snd st)"

definition stCaps :: "mstate \<Rightarrow> (nat \<times> jsstring) list" where
  "stCaps st = snd (snd st)"

text \<open>
  \<open>Canonicalize\<close> of ECMAScript, used to compare a literal of the pattern with a code
  unit of the text under the flag \<open>i\<close>: simple case folding with the flag \<open>u\<close> (which
  folds the long s and the Kelvin sign to ASCII letters), upper-casing into one code unit
  without it (which never takes a code unit outside ASCII into ASCII). The classes of
  the source's patterns under \<open>i\<close> hold no cased character, so a class is not affected
  by the flag.
\<close>

definition canonicalize :: "flags \<Rightarrow> int \<Rightarrow> int" where
  "canonicalize fl c =
     (if \<not> ignoreCase fl then c
      else if unicode fl then (if c = 0x17F then 0x73 else lowerUnit c)
      else if 0x80 \<le> c \<and> upperUnit c < 0x80 then c
      else upperUnit c)"

fun groupsOf :: "regex \<Rightarrow> nat list" where
  "groupsOf (Seq r1 r2) = groupsOf r1 @ groupsOf r2"
| "groupsOf (Alt r1 r2) = groupsOf r1 @ groupsOf r2"
| "groupsOf (Rep mn mx g r) = groupsOf r"
| "groupsOf (Grp n r) = n # groupsOf r"
| "groupsOf r = []"

fun rsize :: "regex \<Rightarrow> nat" where
  "rsize (Seq r1 r2) = Suc (rsize r1 + rsize r2)"
| "rsize (Alt r1 r2) = Suc (rsize r1 + rsize r2)"
| "rsize (Rep mn mx g r) = Suc (rsize r)"
| "rsize (Grp n r) = Suc (rsize r)"
| "rsize r = 0"

fun rmin :: "regex \<Rightarrow> nat" where
  "rmin (Rep mn mx g r) = mn"
| "rmin r = 0"

text \<open>\<open>^\<close> and \<open>$\<close>: the start and the end of the text, and with the flag \<open>m\<close> of a line.\<close>

definition atBol :: "flags \<Rightarrow> mstate \<Rightarrow> bool" where
  "atBol fl st =
     (case stPrev st of None \<Rightarrow> True | Some c \<Rightarrow> multiline fl \<and> isLineTerminator c)"

definition atEol :: "flags \<Rightarrow> mstate \<Rightarrow> bool" where
  "atEol fl st =
     (case stRest st of [] \<Rightarrow> True | c # cs \<Rightarrow> multiline fl \<and> isLineTerminator c)"

text \<open>An iteration of a quantifier starts with the captures of its groups cleared.\<close>

definition clearCaps :: "regex \<Rightarrow> mstate \<Rightarrow> mstate" where
  "clearCaps r st =
     (stPrev st, stRest st, filter (\<lambda>(i, s). i \<notin> set (groupsOf r)) (stCaps st))"

text \<open>
  \<open>m fl r st k\<close> matches \<open>r\<close> at the state \<open>st\<close> and hands every state it can reach to
  the continuation \<open>k\<close>, in the order of the backtracking, until \<open>k\<close> succeeds. The two
  equations of \<open>Rep\<close> are the same function on the empty and on the non-empty rest of
  the text; on the empty rest an iteration cannot consume anything.
\<close>

function m :: "flags \<Rightarrow> regex \<Rightarrow> mstate \<Rightarrow> (mstate \<Rightarrow> mstate option) \<Rightarrow> mstate option" where
  "m fl (Chr c) st k =
     (case stRest st of [] \<Rightarrow> None
      | x # xs \<Rightarrow> if canonicalize fl x = canonicalize fl c then k (Some x, xs, stCaps st) else None)"
| "m fl (Cls P) st k =
     (case stRest st of [] \<Rightarrow> None
      | x # xs \<Rightarrow> if P x then k (Some x, xs, stCaps st) else None)"
| "m fl Bol st k = (if atBol fl st then k st else None)"
| "m fl Eol st k = (if atEol fl st then k st else None)"
| "m fl Eps st k = k st"
| "m fl (Seq r1 r2) st k = m fl r1 st (\<lambda>st'. m fl r2 st' k)"
| "m fl (Alt r1 r2) st k =
     (case m fl r1 st k of Some y \<Rightarrow> Some y | None \<Rightarrow> m fl r2 st k)"
| "m fl (Grp n r) st k =
     m fl r st
       (\<lambda>st'. k (stPrev st', stRest st',
                 (n, take (length (stRest st) - length (stRest st')) (stRest st)) # stCaps st'))"
| "m fl (Rep mn mx g r) (pv, [], cs) k =
     (if mx = Some 0 then k (pv, [], cs)
      else if mn \<noteq> 0 then
        m fl r (clearCaps r (pv, [], cs))
          (\<lambda>st'. m fl (Rep (mn - 1) (map_option (\<lambda>j. j - 1) mx) g r) st' k)
      else k (pv, [], cs))"
| "m fl (Rep mn mx g r) (pv, x # xs, cs) k =
     (if mx = Some 0 then k (pv, x # xs, cs)
      else if mn \<noteq> 0 then
        m fl r (clearCaps r (pv, x # xs, cs))
          (\<lambda>st'. m fl (Rep (mn - 1) (map_option (\<lambda>j. j - 1) mx) g r) st' k)
      else if g then
        (case m fl r (clearCaps r (pv, x # xs, cs))
                (\<lambda>st'. if length (stRest st') < Suc (length xs)
                       then m fl (Rep 0 (map_option (\<lambda>j. j - 1) mx) g r) st' k
                       else None) of
           Some y \<Rightarrow> Some y
         | None \<Rightarrow> k (pv, x # xs, cs))
      else
        (case k (pv, x # xs, cs) of
           Some y \<Rightarrow> Some y
         | None \<Rightarrow>
             m fl r (clearCaps r (pv, x # xs, cs))
               (\<lambda>st'. if length (stRest st') < Suc (length xs)
                      then m fl (Rep 0 (map_option (\<lambda>j. j - 1) mx) g r) st' k
                      else None)))"
  by pat_completeness auto
termination
  by (relation "measures [\<lambda>(fl, r, st, k). rsize r, \<lambda>(fl, r, st, k). rmin r,
        \<lambda>(fl, r, st, k). length (stRest st)]") (auto simp add: stRest_def)

text \<open>
  A match: the text from the start of the match on, the text after the match, the code
  unit before the end of the match, and the captures. \<open>group n\<close> is the capture \<open>n\<close>,
  \<open>None\<close> when the group took no part in the match.
\<close>

record jsmatch =
  mfrom :: jsstring
  mafter :: jsstring
  mprev :: "int option"
  mcaps :: "(nat \<times> jsstring) list"

definition group :: "jsmatch \<Rightarrow> nat \<Rightarrow> jsstring option" where
  "group x n = map_of (mcaps x) n"

text \<open>
  \<open>searchFrom fl r pv s\<close>: the first match of \<open>r\<close> that starts in \<open>s\<close>, the rest of a
  text from a position with the code unit \<open>pv\<close> before it; the start positions are tried
  from left to right.
\<close>

fun searchFrom :: "flags \<Rightarrow> regex \<Rightarrow> int option \<Rightarrow> jsstring \<Rightarrow> jsmatch option" where
  "searchFrom fl r pv [] =
     (case m fl r (pv, [], []) Some of
        Some y \<Rightarrow> Some \<lparr>mfrom = [], mafter = stRest y, mprev = stPrev y, mcaps = stCaps y\<rparr>
      | None \<Rightarrow> None)"
| "searchFrom fl r pv (c # cs) =
     (case m fl r (pv, c # cs, []) Some of
        Some y \<Rightarrow> Some \<lparr>mfrom = c # cs, mafter = stRest y, mprev = stPrev y, mcaps = stCaps y\<rparr>
      | None \<Rightarrow> searchFrom fl r (Some c) cs)"

text \<open>\<open>r.exec(w)\<close> and \<open>w.match(r)\<close> for a pattern without the flag \<open>g\<close>, and \<open>r.test(w)\<close>.\<close>

definition exec :: "flags \<Rightarrow> regex \<Rightarrow> jsstring \<Rightarrow> jsmatch option" where
  "exec fl r w = searchFrom fl r None w"

definition test :: "flags \<Rightarrow> regex \<Rightarrow> jsstring \<Rightarrow> bool" where
  "test fl r w = (exec fl r w \<noteq> None)"

text \<open>
  The loop \<open>while ((match = r.exec(w)) !== null)\<close> of a pattern with the flag \<open>g\<close>:
  each search starts where the match before ended. A match that consumes nothing would
  leave \<open>lastIndex\<close> where it is and the loop of the source would not end; no pattern that
  the source uses in such a loop has an empty match (each starts with a literal or with
  a digit), and \<open>execAllFrom\<close> stops there.
\<close>

function execAllFrom :: "flags \<Rightarrow> regex \<Rightarrow> int option \<Rightarrow> jsstring \<Rightarrow> jsmatch list" where
  "execAllFrom fl r pv s =
     (case searchFrom fl r pv s of
        None \<Rightarrow> []
      | Some x \<Rightarrow>
          if length (mafter x) < length s then x # execAllFrom fl r (mprev x) (mafter x)
          else [x])"
  by pat_completeness auto
termination
  by (relation "measure (\<lambda>(fl, r, pv, s). length s)") auto

definition execAll :: "flags \<Rightarrow> regex \<Rightarrow> jsstring \<Rightarrow> jsmatch list" where
  "execAll fl r w = execAllFrom fl r None w"

text \<open>
  \<open>w.replace(r, f)\<close> for a pattern with the flag \<open>g\<close>: every match, from left to right,
  is replaced by what \<open>f\<close> makes of it.
\<close>

function replaceAllFrom ::
  "flags \<Rightarrow> regex \<Rightarrow> (jsmatch \<Rightarrow> jsstring) \<Rightarrow> int option \<Rightarrow> jsstring \<Rightarrow> jsstring" where
  "replaceAllFrom fl r f pv s =
     (case searchFrom fl r pv s of
        None \<Rightarrow> s
      | Some x \<Rightarrow>
          take (length s - length (mfrom x)) s @ f x
          @ (if length (mafter x) < length s then replaceAllFrom fl r f (mprev x) (mafter x)
             else mafter x))"
  by pat_completeness auto
termination
  by (relation "measure (\<lambda>(fl, r, f, pv, s). length s)") auto

definition replaceAll :: "flags \<Rightarrow> regex \<Rightarrow> (jsmatch \<Rightarrow> jsstring) \<Rightarrow> jsstring \<Rightarrow> jsstring" where
  "replaceAll fl r f w = replaceAllFrom fl r f None w"

text \<open>A lower bound on the number of code units that a match of a pattern consumes.\<close>

fun minLen :: "regex \<Rightarrow> nat" where
  "minLen (Chr c) = 1"
| "minLen (Cls P) = 1"
| "minLen (Seq r1 r2) = minLen r1 + minLen r2"
| "minLen (Alt r1 r2) = min (minLen r1) (minLen r2)"
| "minLen (Grp n r) = minLen r"
| "minLen (Rep mn mx g r) = (case mx of None \<Rightarrow> mn | Some j \<Rightarrow> min mn j) * minLen r"
| "minLen r = 0"

text \<open>Notation for patterns: a literal text, a sequence, alternatives, \<open>*\<close>, \<open>+\<close>, \<open>?\<close>, \<open>.\<close>, \<open>[^...]\<close>.\<close>

definition lit :: "string \<Rightarrow> regex" where
  "lit s = foldr (\<lambda>c r. Seq (Chr (of_char c)) r) s Eps"

definition seqs :: "regex list \<Rightarrow> regex" where
  "seqs rs = foldr Seq rs Eps"

fun alts :: "regex list \<Rightarrow> regex" where
  "alts [] = Cls (\<lambda>c. False)"
| "alts [r] = r"
| "alts (r # rs) = Alt r (alts rs)"

definition rStar :: "regex \<Rightarrow> regex" where
  "rStar r = Rep 0 None True r"

definition rPlus :: "regex \<Rightarrow> regex" where
  "rPlus r = Rep 1 None True r"

definition rLazyPlus :: "regex \<Rightarrow> regex" where
  "rLazyPlus r = Rep 1 None False r"

definition rOpt :: "regex \<Rightarrow> regex" where
  "rOpt r = Rep 0 (Some 1) True r"

definition rAny :: regex where
  "rAny = Cls (\<lambda>c. \<not> isLineTerminator c)"

definition noneOf :: "string \<Rightarrow> regex" where
  "noneOf s = Cls (\<lambda>c. c \<notin> set (map of_char s))"

definition oneOf :: "string \<Rightarrow> regex" where
  "oneOf s = Cls (\<lambda>c. c \<in> set (map of_char s))"

definition rDigit :: regex where
  "rDigit = Cls isDigit"

definition rSpace :: regex where
  "rSpace = Cls isWhiteSpace"

section \<open>types.ts\<close>

datatype PhaseStatus = Completed | InProgress | Pending

datatype PlanStatus = PlanCompleted | PlanInProgress | PlanPending | PlanCancelled

text \<open>
  A value of type \<open>any\<close>, as the frontmatter library hands it over. \<open>JObject\<close> stands for
  every array, object and date: all of them are truthy.
\<close>

datatype jsval = JUndefined | JNull | JBool bool | JNum int | JStr jsstring | JObject

fun truthy :: "jsval \<Rightarrow> bool" where
  "truthy JUndefined = False"
| "truthy JNull = False"
| "truthy (JBool b) = b"
| "truthy (JNum n) = (n \<noteq> 0)"
| "truthy (JStr s) = (s \<noteq> [])"
| "truthy JObject = True"

text \<open>
  \<open>PhaseData\<close>. The field \<open>effort\<close> is declared \<open>effort?: string\<close>; a phase file's
  frontmatter can put any value there, so it is a \<open>jsval\<close>, \<open>JUndefined\<close> when absent.
\<close>

record PhaseData =
  phase :: nat
  name :: jsstring
  status :: PhaseStatus
  file_path :: jsstring
  linkText :: jsstring
  effort :: jsval

text \<open>The object literal that every strategy of the parser pushes: no \<open>effort\<close>.\<close>

definition newPhase :: "nat \<Rightarrow> jsstring \<Rightarrow> PhaseStatus \<Rightarrow> jsstring \<Rightarrow> jsstring \<Rightarrow> PhaseData" where
  "newPhase n nm st f l =
     \<lparr>phase = n, name = nm, status = st, file_path = f, linkText = l, effort = JUndefined\<rparr>"

section \<open>statusUtils.ts\<close>

text \<open>
  The three non-ASCII literals of \<open>normalizeStatus\<close>, code unit by code unit as the
  source file has them. They are the UTF-8 bytes of U+2713, U+2705 and U+1F504 read as
  Windows-1252: three, three and four code units, none of them the emoji itself.
\<close>

definition litCheckMark :: jsstring where
  "litCheckMark = [0xE2, 0x153, 0x201C]"

definition litHeavyCheckMark :: jsstring where
  "litHeavyCheckMark = [0xE2, 0x153, 0x2026]"

definition litArrows :: jsstring where
  "litArrows = [0xF0, 0x178, 0x201D, 0x201E]"

text \<open>The emoji themselves, as the plan parser's source and the specification write them.\<close>

definition emojiCheckMark :: jsstring where
  "emojiCheckMark = [0x2713]"

definition emojiHeavyCheckMark :: jsstring where
  "emojiHeavyCheckMark = [0x2705]"

definition emojiArrows :: jsstring where
  "emojiArrows = [0xD83D, 0xDD04]"

text \<open>
  \<open>normalizeStatus(raw)\<close>. \<open>None\<close> is \<open>null\<close> or \<open>undefined\<close>; \<open>raw || ''\<close> turns both,
  and the empty string, into the empty string.
\<close>

definition normalizeStatus :: "jsstring option \<Rightarrow> PhaseStatus" where
  "normalizeStatus raw =
     (let s = trim (toLowerCase (case raw of None \<Rightarrow> [] | Some r \<Rightarrow> r)) in
      if includes_str s (asc ''complete'') \<or> includes_str s (asc ''done'')
         \<or> includes_str s litCheckMark \<or> includes_str s litHeavyCheckMark
      then Completed
      else if includes_str s (asc ''progress'') \<or> includes_str s (asc ''active'')
         \<or> includes_str s (asc ''wip'') \<or> includes_str s litArrows
      then InProgress
      else Pending)"

text \<open>\<open>calculatePlanStatus(phases)\<close>.\<close>

definition calculatePlanStatus :: "PhaseData list \<Rightarrow> PlanStatus" where
  "calculatePlanStatus phases =
     (if length phases = 0 then PlanPending
      else
        let allCompleted = list_all (\<lambda>p. status p = Completed) phases in
        if allCompleted then PlanCompleted
        else
          let hasInProgress = list_ex (\<lambda>p. status p = InProgress) phases;
              hasCompleted = list_ex (\<lambda>p. status p = Completed) phases
          in if hasInProgress \<or> hasCompleted then PlanInProgress else PlanPending)"

section \<open>The environment: files, working directory, frontmatter library\<close>

text \<open>
  What the file system answers for a path: nothing there, a file that may not be read,
  a directory, or a file with its text. \<open>fs.promises.access(p, R_OK)\<close> succeeds on a
  directory and on a readable file; \<open>fs.promises.readFile(p, 'utf8')\<close> succeeds on a
  readable file only.
\<close>

datatype fsnode = NoEntry | Unreadable | Directory | File jsstring

datatype error = ENOENT | EACCES | EISDIR

text \<open>
  \<open>matter\<close> stands for the library gray-matter: the data of the frontmatter block of a
  text, a value for each key (\<open>JUndefined\<close> for a key that is not there), or \<open>None\<close> when
  the library throws on a malformed block.
\<close>

record env =
  cwd :: jsstring
  files :: "jsstring \<Rightarrow> fsnode"
  matter :: "jsstring \<Rightarrow> (string \<Rightarrow> jsval) option"

definition access :: "env \<Rightarrow> jsstring \<Rightarrow> bool" where
  "access e p = (case files e p of NoEntry \<Rightarrow> False | Unreadable \<Rightarrow> False | _ \<Rightarrow> True)"

definition readFile :: "env \<Rightarrow> jsstring \<Rightarrow> error + jsstring" where
  "readFile e p =
     (case files e p of
        NoEntry \<Rightarrow> Inl ENOENT
      | Unreadable \<Rightarrow> Inl EACCES
      | Directory \<Rightarrow> Inl EISDIR
      | File c \<Rightarrow> Inr c)"

subsection \<open>path.dirname and path.resolve (POSIX)\<close>

definition slash :: int where
  "slash = 0x2F"

text \<open>
  \<open>path.dirname(p)\<close>: trailing slashes do not count; the result ends before the last
  slash that is followed by a name.
\<close>

definition dirname :: "jsstring \<Rightarrow> jsstring" where
  "dirname p =
     (if p = [] then asc ''.''
      else
        let hasRoot = (hd p = slash);
            t = rev (dropWhile (\<lambda>c. c = slash) (rev (tl p)))
        in if slash \<notin> set t then (if hasRoot then asc ''/'' else asc ''.'')
           else
             let endIdx = length (rev (dropWhile (\<lambda>c. c \<noteq> slash) (rev t)))
             in if hasRoot \<and> endIdx = 1 then asc ''//'' else take endIdx p)"

fun normalizeSegs :: "jsstring list \<Rightarrow> jsstring list \<Rightarrow> jsstring list" where
  "normalizeSegs acc [] = rev acc"
| "normalizeSegs acc (s # ss) =
     (if s = [] \<or> s = asc ''.'' then normalizeSegs acc ss
      else if s = asc ''..'' then normalizeSegs (tl acc) ss
      else normalizeSegs (s # acc) ss)"

text \<open>
  \<open>path.resolve(dir, p)\<close>: the arguments are taken from the right until an absolute one
  is found, the working directory (which is absolute) last; empty arguments are skipped
  and the path is normalised.
\<close>

definition path_resolve :: "env \<Rightarrow> jsstring \<Rightarrow> jsstring \<Rightarrow> jsstring" where
  "path_resolve e dir p =
     (let raw =
        (if p \<noteq> [] \<and> hd p = slash then p
         else if dir \<noteq> [] \<and> hd dir = slash then dir @ slash # p
         else cwd e @ slash # dir @ slash # p)
      in slash # join_with slash (normalizeSegs [] (split_on slash raw)))"

section \<open>planParser.ts\<close>

text \<open>Template literals print a number in decimal.\<close>

function showNat :: "nat \<Rightarrow> jsstring" where
  "showNat n = (if n < 10 then [0x30 + int n] else showNat (n div 10) @ [0x30 + int (n mod 10)])"
  by pat_completeness auto
termination
  by (relation "measure id") auto

definition groupText :: "jsmatch \<Rightarrow> nat \<Rightarrow> jsstring" where
  "groupText x n = (case group x n of Some s \<Rightarrow> s | None \<Rightarrow> [])"

definition pipe :: int where
  "pipe = 0x7C"

definition newline :: int where
  "newline = 0x0A"

definition STATUS_KEYWORDS :: "jsstring list" where
  "STATUS_KEYWORDS =
     [asc ''pending'', asc ''in-progress'', asc ''in progress'', asc ''completed'',
      asc ''complete'', asc ''done'', asc ''cancelled'', asc ''canceled'', asc ''todo'',
      asc ''wip'', asc ''planned'', asc ''not started'', asc ''not-started'',
      [0x2705], [0x23F3], [0xD83D, 0xDD04], [0x274C], [0x25CB], [0x27F3], [0x2713]]"

definition isValidStatus :: "jsstring \<Rightarrow> bool" where
  "isValidStatus text =
     (let lower = trim (toLowerCase text) in list_ex (\<lambda>kw. includes_str lower kw) STATUS_KEYWORDS)"

subsection \<open>Format 1: multi-column table\<close>

record TableHeader =
  headerIndex :: nat
  statusColIndex :: int
  phaseColIndex :: int
  nameColIndex :: int
  descColIndex :: int
  linkColIndex :: int

text \<open>\<open>line.split('|').map((c) => c.trim().toLowerCase()).filter((c) => c)\<close> and its form for data rows.\<close>

definition headerCols :: "jsstring \<Rightarrow> jsstring list" where
  "headerCols line = filter (\<lambda>c. c \<noteq> []) (map (\<lambda>c. toLowerCase (trim c)) (split_on pipe line))"

definition rowCols :: "jsstring \<Rightarrow> jsstring list" where
  "rowCols line = filter (\<lambda>c. c \<noteq> []) (map trim (split_on pipe line))"

definition readHeader :: "nat \<Rightarrow> jsstring list \<Rightarrow> int \<Rightarrow> TableHeader" where
  "readHeader i cols statusIdx =
     (let numberColIndex = findIndex (\<lambda>c. c = asc ''#'' \<or> c = asc ''order'') cols;
          phaseNameColIndex = findIndex (\<lambda>c. c = asc ''phase'' \<or> c = asc ''phase name'') cols;
          phaseCol =
            (if numberColIndex \<noteq> -1 \<and> phaseNameColIndex \<noteq> -1 then numberColIndex
             else if phaseNameColIndex \<noteq> -1 then phaseNameColIndex
             else numberColIndex);
          nameCol0 =
            (if numberColIndex \<noteq> -1 \<and> phaseNameColIndex \<noteq> -1 then phaseNameColIndex else -1);
          nameCol =
            (if nameCol0 = -1
             then findIndex (\<lambda>c. c = asc ''name'' \<or> c = asc ''title'' \<or> c = asc ''phase name'') cols
             else nameCol0)
      in \<lparr>headerIndex = i, statusColIndex = statusIdx, phaseColIndex = phaseCol,
          nameColIndex = nameCol,
          descColIndex = findIndex (\<lambda>c. c = asc ''description'' \<or> c = asc ''desc'') cols,
          linkColIndex = findIndex (\<lambda>c. c = asc ''link'' \<or> c = asc ''file'') cols\<rparr>)"

text \<open>
  Step 1 of \<open>parseTableStartingFrom\<close>: the first line from \<open>i\<close> on that has a pipe and a
  column that is or contains \<open>status\<close>. \<open>None\<close> is \<open>headerIndex === -1\<close>.
\<close>

fun findHeader :: "nat \<Rightarrow> jsstring list \<Rightarrow> TableHeader option" where
  "findHeader i [] = None"
| "findHeader i (line # ls) =
     (if \<not> includes_str line [pipe] then findHeader (Suc i) ls
      else
        let cols = headerCols line;
            statusIdx = findIndex (\<lambda>c. c = asc ''status'' \<or> includes_str c (asc ''status'')) cols
        in if statusIdx \<noteq> -1 then Some (readHeader i cols statusIdx)
           else findHeader (Suc i) ls)"

text \<open>The line after a rejected table: the first line from \<open>i\<close> on without a pipe.\<close>

fun skipTable :: "nat \<Rightarrow> jsstring list \<Rightarrow> nat" where
  "skipTable i [] = i"
| "skipTable i (line # ls) = (if includes_str line [pipe] then skipTable (Suc i) ls else i)"

text \<open>The patterns \<open>/(\d+)/\<close>, \<open>/\[([^\]]+)\]\([^)]+\)/\<close>, \<open>/^\d+$/\<close>, \<open>/\*\*/\<close> and \<open>/\[([^\]]+)\]\(([^)]+)\)/\<close>.\<close>

definition digitsRegex :: regex where
  "digitsRegex = Grp 1 (rPlus rDigit)"

definition linkTextRegex :: regex where
  "linkTextRegex =
     seqs [Chr (ch CHR ''[''), Grp 1 (rPlus (noneOf '']'')), Chr (ch CHR '']''),
           Chr (ch CHR ''(''), rPlus (noneOf '')''), Chr (ch CHR '')'')]"

definition onlyDigitsRegex :: regex where
  "onlyDigitsRegex = seqs [Bol, rPlus rDigit, Eol]"

definition boldRegex :: regex where
  "boldRegex = lit ''**''"

definition linkRegex :: regex where
  "linkRegex =
     seqs [Chr (ch CHR ''[''), Grp 1 (rPlus (noneOf '']'')), Chr (ch CHR '']''),
           Chr (ch CHR ''(''), Grp 2 (rPlus (noneOf '')'')), Chr (ch CHR '')'')]"

definition rowPhaseNum :: "TableHeader \<Rightarrow> jsstring list \<Rightarrow> nat \<Rightarrow> nat" where
  "rowPhaseNum h cols n =
     (case elemAt cols (phaseColIndex h) of
        None \<Rightarrow> n + 1
      | Some c \<Rightarrow>
          (case exec noFlags digitsRegex c of
             None \<Rightarrow> n + 1
           | Some numMatch \<Rightarrow> parseInt10 (groupText numMatch 1)))"

definition rowName :: "TableHeader \<Rightarrow> jsstring list \<Rightarrow> nat \<Rightarrow> jsstring" where
  "rowName h cols phaseNum =
     (let name0 =
        (case elemAt cols (descColIndex h) of
           Some d \<Rightarrow> d
         | None \<Rightarrow>
             (case elemAt cols (nameColIndex h) of
                Some n \<Rightarrow> n
              | None \<Rightarrow>
                  (case elemAt cols (phaseColIndex h) of
                     None \<Rightarrow> []
                   | Some phaseText \<Rightarrow>
                       (case exec noFlags linkTextRegex phaseText of
                          Some linkMatch \<Rightarrow> groupText linkMatch 1
                        | None \<Rightarrow>
                            if \<not> test noFlags onlyDigitsRegex phaseText then phaseText else []))));
          name1 = replaceAll noFlags linkTextRegex (\<lambda>x. groupText x 1)
                    (replaceAll noFlags boldRegex (\<lambda>x. []) name0)
      in if name1 = [] then asc ''Phase '' @ showNat phaseNum else name1)"

text \<open>The first column with a link whose target contains \<open>phase-\<close>: the file and the link text.\<close>

fun firstPhaseLink :: "env \<Rightarrow> jsstring \<Rightarrow> jsstring list \<Rightarrow> (jsstring \<times> jsstring) option" where
  "firstPhaseLink e dir [] = None"
| "firstPhaseLink e dir (col # cols) =
     (case exec noFlags linkRegex col of
        None \<Rightarrow> firstPhaseLink e dir cols
      | Some linkMatch \<Rightarrow>
          if includes_str (groupText linkMatch 2) (asc ''phase-'')
          then Some (path_resolve e dir (groupText linkMatch 2), groupText linkMatch 1)
          else firstPhaseLink e dir cols)"

definition rowLink ::
  "env \<Rightarrow> jsstring \<Rightarrow> jsstring \<Rightarrow> TableHeader \<Rightarrow> jsstring list \<Rightarrow> jsstring \<Rightarrow> jsstring \<times> jsstring" where
  "rowLink e dir planFilePath h cols nm =
     (let fromLinkCol =
        (case elemAt cols (linkColIndex h) of
           None \<Rightarrow> (planFilePath, nm)
         | Some c \<Rightarrow>
             (case exec noFlags linkRegex c of
                None \<Rightarrow> (planFilePath, nm)
              | Some linkMatch \<Rightarrow>
                  (path_resolve e dir (groupText linkMatch 2), groupText linkMatch 1)))
      in case firstPhaseLink e dir cols of Some fl \<Rightarrow> fl | None \<Rightarrow> fromLinkCol)"

definition rowPhase ::
  "env \<Rightarrow> jsstring \<Rightarrow> jsstring \<Rightarrow> TableHeader \<Rightarrow> jsstring list \<Rightarrow> jsstring \<Rightarrow> nat \<Rightarrow> PhaseData" where
  "rowPhase e dir planFilePath h cols statusText n =
     (let phaseNum = rowPhaseNum h cols n;
          nm = rowName h cols phaseNum;
          fl = rowLink e dir planFilePath h cols nm
      in newPhase phaseNum (trim nm) (normalizeStatus (Some statusText)) (fst fl) (trim (snd fl)))"

text \<open>
  Step 2 of \<open>parseTableStartingFrom\<close>: the data rows from line \<open>i\<close> on. The result is
  the phases and \<open>tableEndLine\<close>.
\<close>

fun parseRows ::
  "env \<Rightarrow> jsstring \<Rightarrow> jsstring \<Rightarrow> TableHeader \<Rightarrow> nat \<Rightarrow> jsstring list \<Rightarrow> PhaseData list \<Rightarrow>
   PhaseData list \<times> nat" where
  "parseRows e dir planFilePath h i [] phases = (phases, i)"
| "parseRows e dir planFilePath h i (line # ls) phases =
     (if \<not> includes_str line [pipe] then (phases, Suc i)
      else if includes_str line (asc ''---'') \<or> includes_str line (asc ''==='')
      then parseRows e dir planFilePath h (Suc i) ls phases
      else
        let cols = rowCols line in
        case elemAt cols (statusColIndex h) of
          None \<Rightarrow> parseRows e dir planFilePath h (Suc i) ls phases
        | Some statusText \<Rightarrow>
            if \<not> isValidStatus statusText then parseRows e dir planFilePath h (Suc i) ls phases
            else parseRows e dir planFilePath h (Suc i) ls
                   (phases @ [rowPhase e dir planFilePath h cols statusText (length phases)]))"

text \<open>\<open>parseTableStartingFrom\<close>: the phases and \<open>nextScanLine\<close>.\<close>

definition parseTableStartingFrom ::
  "env \<Rightarrow> jsstring list \<Rightarrow> nat \<Rightarrow> jsstring \<Rightarrow> jsstring \<Rightarrow> PhaseData list \<times> nat" where
  "parseTableStartingFrom e lines startLine dir planFilePath =
     (case findHeader startLine (drop startLine lines) of
        None \<Rightarrow> ([], length lines)
      | Some h \<Rightarrow>
          if phaseColIndex h = -1 \<and> nameColIndex h = -1 \<and> descColIndex h = -1
          then ([], skipTable (Suc (headerIndex h)) (drop (Suc (headerIndex h)) lines))
          else parseRows e dir planFilePath h (Suc (headerIndex h))
                 (drop (Suc (headerIndex h)) lines) [])"

function scanTables :: "env \<Rightarrow> jsstring list \<Rightarrow> jsstring \<Rightarrow> jsstring \<Rightarrow> nat \<Rightarrow> PhaseData list" where
  "scanTables e lines dir planFilePath scanStartLine =
     (if scanStartLine < length lines then
        let result = parseTableStartingFrom e lines scanStartLine dir planFilePath in
        if length (fst result) > 0 then fst result
        else if snd result \<le> scanStartLine then []
        else scanTables e lines dir planFilePath (snd result)
      else [])"
  by pat_completeness auto
termination
  by (relation "measure (\<lambda>(e, lines, dir, planFilePath, scanStartLine). length lines - scanStartLine)")
     auto

definition parseMultiColumnTable :: "env \<Rightarrow> jsstring \<Rightarrow> jsstring \<Rightarrow> jsstring \<Rightarrow> PhaseData list" where
  "parseMultiColumnTable e content dir planFilePath =
     scanTables e (split_on newline content) dir planFilePath 0"

subsection \<open>Format 2: link-first table\<close>

text \<open>\<open>/\|\s*\[(?:Phase\s*)?(\d+)\]\(([^)]+)\)\s*\|\s*([^|]+)\s*\|\s*([^|]+)/g\<close>\<close>

definition linkFirstRegex :: regex where
  "linkFirstRegex =
     seqs [Chr pipe, rStar rSpace, Chr (ch CHR ''[''),
           rOpt (Seq (lit ''Phase'') (rStar rSpace)), Grp 1 (rPlus rDigit), Chr (ch CHR '']''),
           Chr (ch CHR ''(''), Grp 2 (rPlus (noneOf '')'')), Chr (ch CHR '')''),
           rStar rSpace, Chr pipe, rStar rSpace, Grp 3 (rPlus (noneOf ''|'')),
           rStar rSpace, Chr pipe, rStar rSpace, Grp 4 (rPlus (noneOf ''|''))]"

definition linkFirstPhase :: "env \<Rightarrow> jsstring \<Rightarrow> jsmatch \<Rightarrow> PhaseData" where
  "linkFirstPhase e dir x =
     newPhase (parseInt10 (groupText x 1)) (trim (groupText x 3))
       (normalizeStatus (Some (groupText x 4)))
       (path_resolve e dir (groupText x 2))
       (asc ''Phase '' @ groupText x 1)"

definition parseLinkFirstTable :: "env \<Rightarrow> jsstring \<Rightarrow> jsstring \<Rightarrow> PhaseData list" where
  "parseLinkFirstTable e content dir =
     map (linkFirstPhase e dir)
       (filter (\<lambda>x. isValidStatus (groupText x 4)) (execAll noFlags linkFirstRegex content))"

subsection \<open>Format 3: numbered list with inline status\<close>

text \<open>
  The pattern of \<open>parseNumberedListWithStatus\<close>, flags \<open>gimu\<close>. With the flag \<open>u\<close> the
  class of the status emoji holds the code point U+1F504, here its two code units.
\<close>

definition statusEmojiClass :: regex where
  "statusEmojiClass =
     Alt (Cls (\<lambda>c. c \<in> set [0x2705, 0x23F3, 0x274C, 0x25CB, 0x27F3, 0x2713]))
         (Seq (Chr 0xD83D) (Chr 0xDD04))"

definition numberedListRegex :: regex where
  "numberedListRegex =
     seqs [Bol, Grp 1 (rPlus rDigit), Chr (ch CHR ''.''), rStar rSpace,
           lit ''**'', Grp 2 (rPlus (noneOf ''*'')), lit ''**'',
           rStar (Cls (\<lambda>c. c \<noteq> ch CHR ''-'' \<and> c \<noteq> newline)),
           Chr (ch CHR ''-''), rStar rSpace,
           Grp 3 (seqs
             [rOpt statusEmojiClass, rStar rSpace,
              alts [lit ''COMPLETE'', lit ''COMPLETED'', lit ''DONE'',
                    seqs [lit ''IN'', rOpt (oneOf ''- ''), lit ''PROGRESS''],
                    lit ''PENDING'', lit ''WIP'', lit ''TODO'', lit ''CANCELLED'',
                    seqs [lit ''NOT'', rOpt (oneOf ''- ''), lit ''STARTED''],
                    lit ''PLANNED''],
              rStar (Cls (\<lambda>c. c \<noteq> newline \<and> c \<noteq> ch CHR ''-''))])]"

definition numberedPhase :: "jsstring \<Rightarrow> jsmatch \<Rightarrow> PhaseData" where
  "numberedPhase planFilePath x =
     newPhase (parseInt10 (groupText x 1)) (trim (groupText x 2))
       (normalizeStatus (Some (groupText x 3))) planFilePath (trim (groupText x 2))"

definition parseNumberedListWithStatus :: "jsstring \<Rightarrow> jsstring \<Rightarrow> PhaseData list" where
  "parseNumberedListWithStatus content planFilePath =
     map (numberedPhase planFilePath) (execAll flags_imu numberedListRegex content)"

subsection \<open>Format 4: heading-based\<close>

text \<open>\<open>/###\s*Phase\s*(\d+)[:\s]+(.+)/i\<close> and \<open>/-\s*Status:\s*(.+)/i\<close>\<close>

definition headingRegex :: regex where
  "headingRegex =
     seqs [lit ''###'', rStar rSpace, lit ''Phase'', rStar rSpace, Grp 1 (rPlus rDigit),
           rPlus (Cls (\<lambda>c. c = ch CHR '':'' \<or> isWhiteSpace c)), Grp 2 (rPlus rAny)]"

definition statusLineRegex :: regex where
  "statusLineRegex =
     seqs [Chr (ch CHR ''-''), rStar rSpace, lit ''Status:'', rStar rSpace, Grp 1 (rPlus rAny)]"

definition headingPhase :: "jsstring \<Rightarrow> jsmatch \<Rightarrow> PhaseData" where
  "headingPhase planFilePath headingMatch =
     (let phaseNum = parseInt10 (groupText headingMatch 1)
      in newPhase phaseNum (trim (groupText headingMatch 2)) Pending planFilePath
           (asc ''Phase '' @ showNat phaseNum))"

text \<open>
  The loop over the lines, with the phases pushed so far and \<open>currentPhase\<close> (\<open>None\<close> for
  \<open>null\<close>). A line is first tried as a heading, then, inside a phase, as a status line.
\<close>

fun headingLoop ::
  "jsstring \<Rightarrow> jsstring list \<Rightarrow> PhaseData list \<Rightarrow> PhaseData option \<Rightarrow> PhaseData list" where
  "headingLoop planFilePath [] phases currentPhase =
     (case currentPhase of Some p \<Rightarrow> phases @ [p] | None \<Rightarrow> phases)"
| "headingLoop planFilePath (line # ls) phases currentPhase =
     (let afterHeading =
        (case exec flags_i headingRegex line of
           Some headingMatch \<Rightarrow>
             ((case currentPhase of Some p \<Rightarrow> phases @ [p] | None \<Rightarrow> phases),
              Some (headingPhase planFilePath headingMatch))
         | None \<Rightarrow> (phases, currentPhase));
          afterStatus =
        (case snd afterHeading of
           None \<Rightarrow> None
         | Some p \<Rightarrow>
             (case exec flags_i statusLineRegex line of
                Some statusMatch \<Rightarrow>
                  Some (p\<lparr>status := normalizeStatus (Some (groupText statusMatch 1))\<rparr>)
              | None \<Rightarrow> Some p))
      in headingLoop planFilePath ls (fst afterHeading) afterStatus)"

definition parseHeadingBased :: "jsstring \<Rightarrow> jsstring \<Rightarrow> PhaseData list" where
  "parseHeadingBased content planFilePath =
     headingLoop planFilePath (split_on newline content) [] None"

subsection \<open>Format 5: checkbox list\<close>

text \<open>\<open>/^-\s*\[(x| )\]\s*\*\*\[(?:Phase\s*)?(\d+)[:\s]*([^\]]*)\]\(([^)]+)\)\*\*/gim\<close>\<close>

definition checkboxRegex :: regex where
  "checkboxRegex =
     seqs [Bol, Chr (ch CHR ''-''), rStar rSpace, Chr (ch CHR ''[''),
           Grp 1 (Alt (Chr (ch CHR ''x'')) (Chr (ch CHR '' ''))), Chr (ch CHR '']''),
           rStar rSpace, lit ''**'', Chr (ch CHR ''[''),
           rOpt (Seq (lit ''Phase'') (rStar rSpace)), Grp 2 (rPlus rDigit),
           rStar (Cls (\<lambda>c. c = ch CHR '':'' \<or> isWhiteSpace c)),
           Grp 3 (rStar (noneOf '']'')), Chr (ch CHR '']''),
           Chr (ch CHR ''(''), Grp 4 (rPlus (noneOf '')'')), lit '')**'']"

definition checkboxPhase :: "env \<Rightarrow> jsstring \<Rightarrow> jsmatch \<Rightarrow> PhaseData" where
  "checkboxPhase e dir x =
     (let nm = (if trim (groupText x 3) \<noteq> [] then trim (groupText x 3)
                else asc ''Phase '' @ groupText x 2)
      in newPhase (parseInt10 (groupText x 2)) nm
           (if toLowerCase (groupText x 1) = asc ''x'' then Completed else Pending)
           (path_resolve e dir (groupText x 4)) nm)"

definition parseCheckboxList :: "env \<Rightarrow> jsstring \<Rightarrow> jsstring \<Rightarrow> jsstring \<Rightarrow> PhaseData list" where
  "parseCheckboxList e content dir planFilePath =
     map (checkboxPhase e dir) (execAll flags_im checkboxRegex content)"

section \<open>phaseMetadataExtractor.ts\<close>

record PhaseFileMetadata =
  md_status :: PhaseStatus
  md_reviewStatus :: jsval
  md_effort :: jsval
  md_priority :: jsval
  md_description :: jsval
  md_dependsOn :: jsval
  md_date :: jsval

text \<open>
  The object that the two loops below fill, \<open>Partial<PhaseFileMetadata>\<close>, together with
  the flag \<open>foundStatus\<close>: \<open>md_status\<close> starts as pending, which is what the source puts
  for a status that is not set, and is only read when the flag is set.
\<close>

definition emptyMetadata :: PhaseFileMetadata where
  "emptyMetadata =
     \<lparr>md_status = Pending, md_reviewStatus = JUndefined, md_effort = JUndefined,
      md_priority = JUndefined, md_description = JUndefined, md_dependsOn = JUndefined,
      md_date = JUndefined\<rparr>"

text \<open>\<open>/\|\s*([^|]+?)\s*\|\s*([^|]+?)\s*\|/g\<close>\<close>

definition tableRowRegex :: regex where
  "tableRowRegex =
     seqs [Chr pipe, rStar rSpace, Grp 1 (rLazyPlus (noneOf ''|'')), rStar rSpace,
           Chr pipe, rStar rSpace, Grp 2 (rLazyPlus (noneOf ''|'')), rStar rSpace, Chr pipe]"

definition overviewRow :: "PhaseFileMetadata \<times> bool \<Rightarrow> jsmatch \<Rightarrow> PhaseFileMetadata \<times> bool" where
  "overviewRow acc x =
     (let field = toLowerCase (trim (groupText x 1));
          v = trim (groupText x 2);
          metadata = fst acc
      in if field = asc ''field'' \<or> includes_str field (asc ''---'') then acc
         else if field = asc ''implementation status'' \<or> field = asc ''status''
         then (metadata\<lparr>md_status := normalizeStatus (Some v)\<rparr>, True)
         else if field = asc ''review status'' then (metadata\<lparr>md_reviewStatus := JStr v\<rparr>, snd acc)
         else if field = asc ''effort'' then (metadata\<lparr>md_effort := JStr v\<rparr>, snd acc)
         else if field = asc ''priority'' then (metadata\<lparr>md_priority := JStr v\<rparr>, snd acc)
         else if field = asc ''description'' then (metadata\<lparr>md_description := JStr v\<rparr>, snd acc)
         else if field = asc ''depends on'' \<or> field = asc ''dependencies''
         then (metadata\<lparr>md_dependsOn := JStr v\<rparr>, snd acc)
         else if field = asc ''date'' then (metadata\<lparr>md_date := JStr v\<rparr>, snd acc)
         else acc)"

definition extractFromOverviewTable :: "jsstring \<Rightarrow> PhaseFileMetadata option" where
  "extractFromOverviewTable content =
     (let result = foldl overviewRow (emptyMetadata, False) (execAll noFlags tableRowRegex content)
      in if \<not> snd result then None else Some (fst result))"

text \<open>\<open>/\*\*([^*]+)\*\*:?\s*([^|*\n]+)/g\<close> on the first twenty lines.\<close>

definition inlinePattern :: regex where
  "inlinePattern =
     seqs [lit ''**'', Grp 1 (rPlus (noneOf ''*'')), lit ''**'', rOpt (Chr (ch CHR '':'')),
           rStar rSpace,
           Grp 2 (rPlus (Cls (\<lambda>c. c \<noteq> pipe \<and> c \<noteq> ch CHR ''*'' \<and> c \<noteq> newline)))]"

definition inlineField :: "PhaseFileMetadata \<times> bool \<Rightarrow> jsmatch \<Rightarrow> PhaseFileMetadata \<times> bool" where
  "inlineField acc x =
     (let field = toLowerCase (trim (groupText x 1));
          v = trim (groupText x 2);
          metadata = fst acc
      in if field = asc ''status'' then (metadata\<lparr>md_status := normalizeStatus (Some v)\<rparr>, True)
         else if field = asc ''effort'' then (metadata\<lparr>md_effort := JStr v\<rparr>, snd acc)
         else if field = asc ''priority'' then (metadata\<lparr>md_priority := JStr v\<rparr>, snd acc)
         else if field = asc ''depends on'' then (metadata\<lparr>md_dependsOn := JStr v\<rparr>, snd acc)
         else acc)"

definition extractFromInlineMetadata :: "jsstring \<Rightarrow> PhaseFileMetadata option" where
  "extractFromInlineMetadata content =
     (let headerSection = join_with newline (take 20 (split_on newline content));
          result = foldl inlineField (emptyMetadata, False) (execAll noFlags inlinePattern headerSection)
      in if \<not> snd result then None else Some (fst result))"

text \<open>
  \<open>extractFromFrontmatter\<close>. A \<open>status\<close> that is falsy gives \<open>null\<close>; a truthy one that
  is not a string makes \<open>normalizeStatus\<close> throw a TypeError (it has no \<open>toLowerCase\<close>),
  which the \<open>catch\<close> turns into \<open>null\<close>, as it does when the library throws.
\<close>

definition orElse :: "jsval \<Rightarrow> jsval \<Rightarrow> jsval" where
  "orElse a b = (if truthy a then a else b)"

definition extractFromFrontmatter :: "env \<Rightarrow> jsstring \<Rightarrow> PhaseFileMetadata option" where
  "extractFromFrontmatter e content =
     (if \<not> startsWith (trim content) (asc ''---'') then None
      else
        case matter e content of
          None \<Rightarrow> None
        | Some d \<Rightarrow>
            (case d ''status'' of
               JStr s \<Rightarrow>
                 if s = [] then None
                 else Some \<lparr>md_status = normalizeStatus (Some s), md_reviewStatus = JUndefined,
                            md_effort = d ''effort'', md_priority = d ''priority'',
                            md_description = d ''description'',
                            md_dependsOn = orElse (d ''depends_on'') (d ''dependsOn''),
                            md_date = orElse (d ''date'') (d ''created'')\<rparr>
             | _ \<Rightarrow> None))"

text \<open>
  \<open>extractPhaseMetadata\<close>: \<open>null\<close> when the file cannot be accessed; the read itself is
  not guarded and throws on a directory.
\<close>

definition extractPhaseMetadata :: "env \<Rightarrow> jsstring \<Rightarrow> error + PhaseFileMetadata option" where
  "extractPhaseMetadata e filePath =
     (if \<not> access e filePath then Inr None
      else
        case readFile e filePath of
          Inl err \<Rightarrow> Inl err
        | Inr content \<Rightarrow>
            (case extractFromOverviewTable content of
               Some metadata \<Rightarrow> Inr (Some metadata)
             | None \<Rightarrow>
                 (case extractFromInlineMetadata content of
                    Some metadata \<Rightarrow> Inr (Some metadata)
                  | None \<Rightarrow> Inr (extractFromFrontmatter e content))))"

section \<open>planParser.ts: enrichment and entry points\<close>

text \<open>
  The function that \<open>enrichPhasesWithFileMetadata\<close> maps over the phases. An error of
  \<open>extractPhaseMetadata\<close> is caught and the phase returned as it is.
\<close>

definition enrichPhase :: "env \<Rightarrow> PhaseData \<Rightarrow> PhaseData" where
  "enrichPhase e p =
     (if file_path p = [] \<or> \<not> includes_str (file_path p) (asc ''phase-'') then p
      else
        case extractPhaseMetadata e (file_path p) of
          Inl err \<Rightarrow> p
        | Inr None \<Rightarrow> p
        | Inr (Some metadata) \<Rightarrow>
            p\<lparr>status := md_status metadata, effort := orElse (md_effort metadata) (effort p)\<rparr>)"

definition enrichPhasesWithFileMetadata :: "env \<Rightarrow> PhaseData list \<Rightarrow> PhaseData list" where
  "enrichPhasesWithFileMetadata e phases = map (enrichPhase e) phases"

definition parsePlanTable :: "env \<Rightarrow> jsstring \<Rightarrow> error + PhaseData list" where
  "parsePlanTable e planFilePath =
     (case readFile e planFilePath of
        Inl err \<Rightarrow> Inl err
      | Inr content \<Rightarrow>
          let dir = dirname planFilePath;
              phases1 = parseMultiColumnTable e content dir planFilePath
          in if length phases1 > 0 then Inr (enrichPhasesWithFileMetadata e phases1)
             else
               let phases2 = parseLinkFirstTable e content dir
               in if length phases2 > 0 then Inr (enrichPhasesWithFileMetadata e phases2)
                  else
                    let phases3 = parseNumberedListWithStatus content planFilePath
                    in if length phases3 > 0 then Inr (enrichPhasesWithFileMetadata e phases3)
                       else
                         let phases4 = parseHeadingBased content planFilePath
                         in if length phases4 > 0 then Inr (enrichPhasesWithFileMetadata e phases4)
                            else
                              let phases5 = parseCheckboxList e content dir planFilePath
                              in if length phases5 > 0
                                 then Inr (enrichPhasesWithFileMetadata e phases5)
                                 else Inr phases5)"

text \<open>
  \<open>parsePlans\<close>: the map from each file to its phases, the empty list for a file whose
  parse threw. The result does not depend on the order in which the promises settle.
\<close>

definition parsePlans :: "env \<Rightarrow> jsstring list \<Rightarrow> (jsstring \<rightharpoonup> PhaseData list)" where
  "parsePlans e planFiles =
     map_of (map (\<lambda>f. (f, case parsePlanTable e f of Inl err \<Rightarrow> [] | Inr phases \<Rightarrow> phases))
               planFiles)"

section \<open>metadataExtractor.ts\<close>

text \<open>
  \<open>normalizePriority\<close>. \<open>None\<close> is \<open>undefined\<close> as an argument and \<open>null\<close> as a result;
  the result is the string that the source returns. \<open>/^P[0-3]$/\<close> is \<open>priorityRegex\<close>.
\<close>

definition priorityRegex :: regex where
  "priorityRegex = seqs [Bol, Chr (ch CHR ''P''), oneOf ''0123'', Eol]"

definition normalizePriority :: "jsstring option \<Rightarrow> jsstring option" where
  "normalizePriority priority =
     (case priority of
        None \<Rightarrow> None
      | Some s \<Rightarrow>
          if s = [] then None
          else
            let p = trim (toUpperCase s) in
            if p = asc ''P1'' \<or> p = asc ''HIGH'' \<or> p = asc ''CRITICAL'' then Some (asc ''P1'')
            else if p = asc ''P2'' \<or> p = asc ''MEDIUM'' \<or> p = asc ''NORMAL'' then Some (asc ''P2'')
            else if p = asc ''P3'' \<or> p = asc ''LOW'' then Some (asc ''P3'')
            else if test noFlags priorityRegex p then Some p
            else None)"

subsection \<open>Dates\<close>

text \<open>
  A \<open>Date\<close> built from a year, a month index and a day of the month, after ECMAScript:
  \<open>MakeDay\<close> carries a month index outside \<open>0..11\<close> into the year and counts the day from
  the first of the month, whatever its size; a year from 0 to 99 is read as 1900 plus
  that; the value is \<open>NaN\<close> (here \<open>None\<close>) only when it lies more than \<open>10^8\<close> days from
  the epoch. The date is kept as its day number in local time; \<open>getFullYear\<close>,
  \<open>getMonth\<close> and \<open>getDate\<close> read it back.
\<close>

definition dayFromYear :: "int \<Rightarrow> int" where
  "dayFromYear y = 365 * (y - 1970) + (y - 1969) div 4 - (y - 1901) div 100 + (y - 1601) div 400"

definition inLeapYear :: "int \<Rightarrow> bool" where
  "inLeapYear y \<longleftrightarrow> y mod 4 = 0 \<and> (y mod 100 \<noteq> 0 \<or> y mod 400 = 0)"

definition monthStart :: "int \<Rightarrow> bool \<Rightarrow> int" where
  "monthStart mn leap =
     [0, 31, 59, 90, 120, 151, 181, 212, 243, 273, 304, 334] ! nat mn
     + (if leap \<and> 2 \<le> mn then 1 else 0)"

definition makeDay :: "int \<Rightarrow> int \<Rightarrow> int \<Rightarrow> int" where
  "makeDay year month date =
     (let ym = year + month div 12; mn = month mod 12
      in dayFromYear ym + monthStart mn (inLeapYear ym) + date - 1)"

definition newDate :: "int \<Rightarrow> int \<Rightarrow> int \<Rightarrow> int option" where
  "newDate year month date =
     (let yr = (if 0 \<le> year \<and> year \<le> 99 then 1900 + year else year);
          d = makeDay yr month date
      in if 100000000 < \<bar>d\<bar> then None else Some d)"

text \<open>The civil date of a day number: year, month index and day of the month.\<close>

definition civil :: "int \<Rightarrow> int \<times> int \<times> int" where
  "civil d =
     (let z = d + 719468;
          era = z div 146097;
          doe = z mod 146097;
          yoe = (doe - doe div 1460 + doe div 36524 - doe div 146096) div 365;
          doy = doe - (365 * yoe + yoe div 4 - yoe div 100);
          mp = (5 * doy + 2) div 153;
          dom = doy - (153 * mp + 2) div 5 + 1;
          mon = (if mp < 10 then mp + 2 else mp - 10);
          y = yoe + era * 400 + (if mon \<le> 1 then 1 else 0)
      in (y, mon, dom))"

definition getFullYear :: "int \<Rightarrow> int" where
  "getFullYear d = fst (civil d)"

definition getMonth :: "int \<Rightarrow> int" where
  "getMonth d = fst (snd (civil d))"

definition getDate :: "int \<Rightarrow> int" where
  "getDate d = snd (snd (civil d))"

text \<open>\<open>/^(\d{6,8})(?:-(\d{4}))?-/\<close>\<close>

definition dateRegex :: regex where
  "dateRegex =
     seqs [Bol, Grp 1 (Rep 6 (Some 8) True rDigit),
           rOpt (Seq (Chr (ch CHR ''-'')) (Grp 2 (Rep 4 (Some 4) True rDigit))),
           Chr (ch CHR ''-'')]"

definition slice :: "jsstring \<Rightarrow> nat \<Rightarrow> nat \<Rightarrow> jsstring" where
  "slice s a b = take (b - a) (drop a s)"

definition parseDateFromDirName :: "jsstring \<Rightarrow> int option" where
  "parseDateFromDirName dirName =
     (case exec noFlags dateRegex dirName of
        None \<Rightarrow> None
      | Some x \<Rightarrow>
          let dateStr = groupText x 1 in
          if length dateStr = 6
          then newDate (2000 + int (parseInt10 (slice dateStr 0 2)))
                 (int (parseInt10 (slice dateStr 2 4)) - 1)
                 (int (parseInt10 (slice dateStr 4 6)))
          else newDate (int (parseInt10 (slice dateStr 0 4)))
                 (int (parseInt10 (slice dateStr 4 6)) - 1)
                 (int (parseInt10 (slice dateStr 6 8))))"

subsection \<open>Progress of a plan\<close>

text \<open>
  The arithmetic of \<open>Math.round((completedCount / totalCount) * 100)\<close> is in double
  precision. A positive double is \<open>m * 2^e\<close> for integers \<open>m\<close> and \<open>e\<close> with \<open>m\<close> of 53
  bits. \<open>toDouble n d\<close> is the double nearest to the quotient \<open>n / d\<close> of two positive
  integers, ties to the even significand: what the division and the multiplication of
  IEEE 754 return for an exact result \<open>n / d\<close> (in the range of the counts neither
  overflows nor underflows, and a count is itself a double).
\<close>

definition roundNearestEven :: "int \<Rightarrow> int \<Rightarrow> int" where
  "roundNearestEven n d =
     (let q = n div d; r = n mod d
      in if d < 2 * r \<or> (2 * r = d \<and> odd q) then q + 1 else q)"

definition scaleDown :: "int \<Rightarrow> int \<Rightarrow> int \<Rightarrow> int \<times> int" where
  "scaleDown n d ex = (if 0 \<le> ex then (n, d * 2 ^ nat ex) else (n * 2 ^ nat (- ex), d))"

definition floorLog2 :: "int \<Rightarrow> int \<Rightarrow> int" where
  "floorLog2 n d =
     (let b = bitlen n - bitlen d; s = scaleDown n d b
      in if snd s \<le> fst s then b else b - 1)"

definition toDouble :: "int \<Rightarrow> int \<Rightarrow> int \<times> int" where
  "toDouble n d =
     (let ex = floorLog2 n d - 52; s = scaleDown n d ex
      in (roundNearestEven (fst s) (snd s), ex))"

text \<open>\<open>x * 100\<close> for a double \<open>x = m * 2^e\<close>, and \<open>Math.round\<close>, which is \<open>floor(x + 1/2)\<close>.\<close>

definition timesHundred :: "int \<times> int \<Rightarrow> int \<times> int" where
  "timesHundred x =
     (let s = scaleDown (100 * fst x) 1 (- snd x) in toDouble (fst s) (snd s))"

definition mathRound :: "int \<times> int \<Rightarrow> int" where
  "mathRound x =
     (let s = scaleDown (fst x) 1 (- snd x) in (2 * fst s + snd s) div (2 * snd s))"

definition percentageOf :: "nat \<Rightarrow> nat \<Rightarrow> int" where
  "percentageOf completedCount totalCount =
     (if totalCount > 0 then
        (if completedCount = 0 then 0
         else mathRound (timesHundred (toDouble (int completedCount) (int totalCount))))
      else 0)"

text \<open>
  \<open>extractPlanData\<close>: the fields \<open>path\<close>, \<open>phases\<close>, \<open>completedCount\<close>, \<open>totalCount\<close>
  and \<open>percentage\<close> of the record it returns. The other fields (identity, status, time
  stamp and the metadata of frontmatter and header) do not enter these and are left
  out; none of their computations throws. The file is read first, and read again by
  \<open>parsePlanTable\<close>.
\<close>

record PlanData =
  plan_path :: jsstring
  phases :: "PhaseData list"
  completedCount :: nat
  totalCount :: nat
  percentage :: int

definition extractPlanData :: "env \<Rightarrow> jsstring \<Rightarrow> error + PlanData" where
  "extractPlanData e planPath =
     (case readFile e planPath of
        Inl err \<Rightarrow> Inl err
      | Inr content \<Rightarrow>
          (case parsePlanTable e planPath of
             Inl err \<Rightarrow> Inl err
           | Inr ps \<Rightarrow>
               let completed = length (filter (\<lambda>p. status p = Completed) ps);
                   total = length ps
               in Inr \<lparr>plan_path = planPath, phases = ps, completedCount = completed,
                        totalCount = total, percentage = percentageOf completed total\<rparr>))"

section \<open>Notions of the specification\<close>

text \<open>
  What the specification calls a phase heading and a status line of the heading-based
  format: the phase that a line starts when \<open>headingRegex\<close> matches in it, and the
  normalised value of a line in which \<open>statusLineRegex\<close> matches.
\<close>

definition headingOf :: "jsstring \<Rightarrow> jsstring \<Rightarrow> PhaseData option" where
  "headingOf planFilePath line =
     map_option (headingPhase planFilePath) (exec flags_i headingRegex line)"

definition statusOf :: "jsstring \<Rightarrow> PhaseStatus option" where
  "statusOf line =
     map_option (\<lambda>x. normalizeStatus (Some (groupText x 1))) (exec flags_i statusLineRegex line)"

text \<open>
  The five strategies in their order, and the first of a list of results that is not
  empty (the empty list when all are).
\<close>

definition strategies :: "env \<Rightarrow> jsstring \<Rightarrow> jsstring \<Rightarrow> jsstring \<Rightarrow> PhaseData list list" where
  "strategies e content dir planFilePath =
     [parseMultiColumnTable e content dir planFilePath,
      parseLinkFirstTable e content dir,
      parseNumberedListWithStatus content planFilePath,
      parseHeadingBased content planFilePath,
      parseCheckboxList e content dir planFilePath]"

fun firstNonEmpty :: "'a list list \<Rightarrow> 'a list" where
  "firstNonEmpty [] = []"
| "firstNonEmpty (x # xs) = (if x \<noteq> [] then x else firstNonEmpty xs)"

text \<open>
  A line that Step 1 of \<open>parseTableStartingFrom\<close> takes for the header of a table: it has
  a pipe and a column that is or contains \<open>status\<close>. Such a header is phase related when
  the indices read from it hold a number or phase column, a name column or a description
  column; a table whose header is not is rejected.
\<close>

definition statusHeader :: "jsstring \<Rightarrow> bool" where
  "statusHeader line \<longleftrightarrow>
     includes_str line [pipe]
     \<and> findIndex (\<lambda>c. c = asc ''status'' \<or> includes_str c (asc ''status'')) (headerCols line) \<noteq> -1"

definition phaseRelated :: "jsstring \<Rightarrow> bool" where
  "phaseRelated line \<longleftrightarrow>
     (let h = readHeader 0 (headerCols line) 0
      in \<not> (phaseColIndex h = -1 \<and> nameColIndex h = -1 \<and> descColIndex h = -1))"

text \<open>The nearest integer to \<open>n / d\<close> for \<open>d > 0\<close>, a tie going up, as \<open>Math.round\<close> has it.\<close>

definition roundHalfUp :: "int \<Rightarrow> int \<Rightarrow> int" where
  "roundHalfUp n d = (2 * n + d) div (2 * d)"

text \<open>The real number that the double \<open>m * 2^e\<close> stands for.\<close>

definition valueOf :: "int \<times> int \<Rightarrow> real" where
  "valueOf x = real_of_int (fst x) * 2 powi (snd x)"

section \<open>Scenarios of the specification\<close>

text \<open>
  Enrichment override: the table of the plan marks phase 1 as pending and links the
  phase file, whose overview table says complete.
\<close>

definition overridePlan :: jsstring where
  "overridePlan =
     join_with newline
       [asc ''# Plan'', [],
        asc ''| # | Phase | Status | Link |'',
        asc ''|---|-------|--------|------|'',
        asc ''| 1 | Setup | Pending | [Phase 1](./phase-01-x.md) |'']"

definition overridePhaseFile :: jsstring where
  "overridePhaseFile =
     join_with newline
       [asc ''# Phase 1'', [],
        asc ''| Field | Value |'',
        asc ''|-------|-------|'',
        asc ''| Implementation Status | '' @ [0x2705] @ asc '' Complete |'']"

definition overrideEnv :: env where
  "overrideEnv =
     \<lparr>cwd = asc ''/'',
      files = (\<lambda>p. if p = asc ''/ws/plans/a/plan.md'' then File overridePlan
                   else if p = asc ''/ws/plans/a/phase-01-x.md'' then File overridePhaseFile
                   else NoEntry),
      matter = (\<lambda>c. Some (\<lambda>k. JUndefined))\<rparr>"

text \<open>The same with the plan in the link-first format.\<close>

definition linkFirstPlan :: jsstring where
  "linkFirstPlan =
     join_with newline
       [asc ''# Plan'', [],
        asc ''| [Phase 1](./phase-01-x.md) | Setup | Pending |'']"

definition linkFirstEnv :: env where
  "linkFirstEnv =
     \<lparr>cwd = asc ''/'',
      files = (\<lambda>p. if p = asc ''/ws/plans/b/plan.md'' then File linkFirstPlan
                   else if p = asc ''/ws/plans/b/phase-01-x.md'' then File overridePhaseFile
                   else NoEntry),
      matter = (\<lambda>c. Some (\<lambda>k. JUndefined))\<rparr>"

text \<open>
  Dependency table exclusion: a dependency table, which has no status column, and a
  table with a status column and no phase, name or description column, each followed
  by the numbered list line.
\<close>

definition numberedLine :: jsstring where
  "numberedLine =
     asc ''1. **Database Schema** (12h) - '' @ [0x2705] @ asc '' COMPLETE - 12 tables created''"

definition dependencyDoc :: jsstring where
  "dependencyDoc =
     join_with newline
       [asc ''## Dependency Graph'', [],
        asc ''| Phase | Depends On | Can Run Parallel With |'',
        asc ''|-------|------------|----------------------|'',
        asc ''| 01 | None | 09 |'',
        asc ''| 02 | 01 | 03, 04 |'', [],
        asc ''## Phase Summary'', [],
        numberedLine]"

definition statusOnlyDoc :: jsstring where
  "statusOnlyDoc =
     join_with newline
       [asc ''## Gap Analysis'', [],
        asc ''| Gap | Status |'',
        asc ''|-----|--------|'',
        asc ''| None | Done |'',
        asc ''| Logging | Pending |'', [],
        asc ''## Phase Summary'', [],
        numberedLine]"

text \<open>
  The dependency table again, its phases written as links to their files, and a plan
  whose phase table comes after a table that has a status column and no phase column.
\<close>

definition linkRowsDoc :: jsstring where
  "linkRowsDoc =
     join_with newline
       [asc ''## Dependency Graph'', [],
        asc ''| Phase | Depends On | Can Run Parallel With |'',
        asc ''|-------|------------|----------------------|'',
        asc ''| [01](./p01.md) | None | 09 (once 02 is done) |'',
        asc ''| [02](./p02.md) | 01 | 03, 04 |'', [],
        asc ''## Phase Summary'', [],
        numberedLine]"

definition linkRowsEnv :: env where
  "linkRowsEnv =
     \<lparr>cwd = asc ''/'',
      files = (\<lambda>p. if p = asc ''/ws/plans/d/plan.md'' then File linkRowsDoc else NoEntry),
      matter = (\<lambda>c. None)\<rparr>"

definition twoTablesDoc :: jsstring where
  "twoTablesDoc =
     join_with newline
       [asc ''| Gap | Status |'',
        asc ''|-----|--------|'',
        asc ''| Logging | Pending |'', [],
        asc ''| # | Phase | Status |'',
        asc ''|---|-------|--------|'',
        asc ''| 1 | Setup | Done |'']"

text \<open>
  A plan whose phase file is a directory and whose frontmatter library throws, and no
  plan at all under another path.
\<close>

definition brokenEnv :: env where
  "brokenEnv =
     \<lparr>cwd = asc ''/'',
      files = (\<lambda>p. if p = asc ''/ws/plans/a/plan.md'' then File overridePlan
                   else if p = asc ''/ws/plans/a/phase-01-x.md'' then Directory
                   else NoEntry),
      matter = (\<lambda>c. None)\<rparr>"

text \<open>A plan of forty phases in the numbered list format, twenty-three of them done.\<close>

definition fortyPlan :: jsstring where
  "fortyPlan =
     concat (replicate 23 (asc ''1. **A** - DONE'' @ [newline])
             @ replicate 17 (asc ''2. **B** - TODO'' @ [newline]))"

definition fortyEnv :: env where
  "fortyEnv =
     \<lparr>cwd = asc ''/'',
      files = (\<lambda>p. if p = asc ''/ws/plans/c/plan.md'' then File fortyPlan else NoEntry),
      matter = (\<lambda>c. None)\<rparr>"

definition fortyPhases :: "PhaseData list" where
  "fortyPhases =
     replicate 23 (newPhase 1 (asc ''A'') Completed (asc ''/ws/plans/c/plan.md'') (asc ''A''))
     @ replicate 17 (newPhase 2 (asc ''B'') Pending (asc ''/ws/plans/c/plan.md'') (asc ''B''))"

section \<open>Properties of the string primitives\<close>

lemma includes_str_dropWhile:
  assumes "k \<noteq> []" and "\<not> P (hd k)"
  shows "includes_str (dropWhile P s) k \<longleftrightarrow> includes_str s k"
proof (induction s)
  case Nil
  show ?case by simp
next
  case (Cons c s)
  show ?case
  proof (cases "P c")
    case True
    have "\<not> prefix k (c # s)"
    proof
      assume "prefix k (c # s)"
      with assms(1) have "hd k = c" by (cases k) auto
      with True assms(2) show False by simp
    qed
    with True Cons show ?thesis
      by (simp add: includes_str_def sublist_Cons_right)
  next
    case False
    then show ?thesis by simp
  qed
qed

lemma includes_str_rev: "includes_str (rev s) k \<longleftrightarrow> includes_str s (rev k)"
  by (simp add: includes_str_def sublist_rev_right)

lemma includes_str_trim:
  assumes "k \<noteq> []" and "\<not> isWhiteSpace (hd k)" and "\<not> isWhiteSpace (last k)"
  shows "includes_str (trim s) k \<longleftrightarrow> includes_str s k"
proof -
  have r: "rev k \<noteq> []" "\<not> isWhiteSpace (hd (rev k))"
    using assms by (simp_all add: hd_rev)
  have "includes_str (trim s) k \<longleftrightarrow> includes_str (dropWhile isWhiteSpace (rev (dropWhile isWhiteSpace s))) (rev k)"
    by (simp add: trim_def includes_str_rev)
  also have "\<dots> \<longleftrightarrow> includes_str (rev (dropWhile isWhiteSpace s)) (rev k)"
    by (rule includes_str_dropWhile [where P = isWhiteSpace, OF r])
  also have "\<dots> \<longleftrightarrow> includes_str (dropWhile isWhiteSpace s) k"
    by (simp add: includes_str_rev)
  also have "\<dots> \<longleftrightarrow> includes_str s k"
    by (rule includes_str_dropWhile [where P = isWhiteSpace, OF assms(1,2)])
  finally show ?thesis .
qed

section \<open>Status normalisation\<close>

text \<open>
  What \<open>normalizeStatus\<close> computes, for every input: the trimming does not change
  which of the eight literals occur, so the result is decided by the lower-cased text
  alone. The literals are the source's: four ASCII keywords and the mis-encoded forms.
\<close>

lemma normalizeStatus_lowered:
  "normalizeStatus raw =
     (let s = toLowerCase (case raw of None \<Rightarrow> [] | Some r \<Rightarrow> r) in
      if includes_str s (asc ''complete'') \<or> includes_str s (asc ''done'')
         \<or> includes_str s litCheckMark \<or> includes_str s litHeavyCheckMark
      then Completed
      else if includes_str s (asc ''progress'') \<or> includes_str s (asc ''active'')
         \<or> includes_str s (asc ''wip'') \<or> includes_str s litArrows
      then InProgress
      else Pending)"
  by (simp add: normalizeStatus_def Let_def includes_str_trim asc_def isWhiteSpace_def
      litCheckMark_def litHeavyCheckMark_def litArrows_def)

text \<open>
  The fourth literal of the in-progress test holds the capital letter U+0178, which no
  lower-cased text holds: that test never succeeds, whatever the input.
\<close>

lemma lowerUnits_not_0x178: "0x178 \<notin> set (lowerUnits c)"
proof -
  have "lowerUnit c \<noteq> 0x178"
    by (cases "c = 0x177") (simp_all add: lowerUnit_def)
  then show ?thesis
    by (simp add: lowerUnits_def)
qed

lemma litArrows_never: "\<not> includes_str (toLowerCase s) litArrows"
proof
  assume "includes_str (toLowerCase s) litArrows"
  then have "set litArrows \<subseteq> set (toLowerCase s)"
    by (simp add: includes_str_def set_mono_sublist)
  then have "\<exists>c. 0x178 \<in> set (lowerUnits c)"
    by (auto simp add: litArrows_def toLowerCase_def)
  then show False
    using lowerUnits_not_0x178 by blast
qed

lemma normalizeStatus_cases:
  "normalizeStatus raw =
     (let s = toLowerCase (case raw of None \<Rightarrow> [] | Some r \<Rightarrow> r) in
      if includes_str s (asc ''complete'') \<or> includes_str s (asc ''done'')
         \<or> includes_str s litCheckMark \<or> includes_str s litHeavyCheckMark
      then Completed
      else if includes_str s (asc ''progress'') \<or> includes_str s (asc ''active'')
         \<or> includes_str s (asc ''wip'')
      then InProgress
      else Pending)"
  by (simp add: normalizeStatus_lowered Let_def litArrows_never)

text \<open>
  The test suite of the repository expects in-progress for the mis-encoded arrows
  followed by \<open>Working\<close>; the code returns pending.
\<close>

lemma normalizeStatus_own_test:
  "normalizeStatus (Some (litArrows @ asc '' Working'')) = Pending"
  by code_simp

text \<open>
  C1. The claim: a text that contains the check mark U+2713, the heavy check mark
  U+2705 or the arrows U+1F504 normalises to completed, completed and in-progress.
  The code looks for the mis-encoded literals instead, so each of the three emoji alone
  normalises to pending.
\<close>

theorem normalizeStatus_emoji_pending:
  "normalizeStatus (Some emojiCheckMark) = Pending
   \<and> normalizeStatus (Some emojiHeavyCheckMark) = Pending
   \<and> normalizeStatus (Some emojiArrows) = Pending"
  by code_simp

section \<open>Plan status\<close>

lemma calculatePlanStatus_cases:
  "calculatePlanStatus ps =
     (if ps = [] then PlanPending
      else if \<forall>p \<in> set ps. status p = Completed then PlanCompleted
      else if \<exists>p \<in> set ps. status p = InProgress \<or> status p = Completed then PlanInProgress
      else PlanPending)"
  by (auto simp add: calculatePlanStatus_def Let_def list_all_iff list_ex_iff)

text \<open>
  C7. \<open>calculatePlanStatus\<close> is pending for the empty list; completed when the list
  is not empty and every phase is completed; in-progress when some phase is not completed
  and some phase is completed or in progress; pending when every phase is pending.
\<close>

theorem calculatePlanStatus_spec:
  "calculatePlanStatus [] = PlanPending
   \<and> (ps \<noteq> [] \<and> (\<forall>p \<in> set ps. status p = Completed)
        \<longrightarrow> calculatePlanStatus ps = PlanCompleted)
   \<and> ((\<exists>p \<in> set ps. status p \<noteq> Completed)
        \<and> (\<exists>p \<in> set ps. status p = Completed \<or> status p = InProgress)
        \<longrightarrow> calculatePlanStatus ps = PlanInProgress)
   \<and> ((\<forall>p \<in> set ps. status p = Pending) \<longrightarrow> calculatePlanStatus ps = PlanPending)"
proof (intro conjI impI)
  show "calculatePlanStatus [] = PlanPending"
    by (simp add: calculatePlanStatus_cases)
next
  assume "ps \<noteq> [] \<and> (\<forall>p \<in> set ps. status p = Completed)"
  then show "calculatePlanStatus ps = PlanCompleted"
    by (simp add: calculatePlanStatus_cases)
next
  assume a: "(\<exists>p \<in> set ps. status p \<noteq> Completed)
             \<and> (\<exists>p \<in> set ps. status p = Completed \<or> status p = InProgress)"
  then have "ps \<noteq> []" by auto
  with a show "calculatePlanStatus ps = PlanInProgress"
    by (auto simp add: calculatePlanStatus_cases)
next
  assume a: "\<forall>p \<in> set ps. status p = Pending"
  show "calculatePlanStatus ps = PlanPending"
  proof (cases "ps = []")
    case True
    then show ?thesis by (simp add: calculatePlanStatus_cases)
  next
    case False
    then obtain p where "p \<in> set ps" by (cases ps) auto
    with a have "\<not> (\<forall>p \<in> set ps. status p = Completed)" by force
    with a False show ?thesis by (auto simp add: calculatePlanStatus_cases)
  qed
qed

theorem calculatePlanStatus_spec_witness:
  "calculatePlanStatus [newPhase 1 (asc ''A'') Completed [] [], newPhase 2 (asc ''B'') Completed [] []]
     = PlanCompleted
   \<and> calculatePlanStatus [newPhase 1 (asc ''A'') Completed [] [], newPhase 2 (asc ''B'') Pending [] []]
     = PlanInProgress
   \<and> calculatePlanStatus [newPhase 1 (asc ''A'') Pending [] [], newPhase 2 (asc ''B'') Pending [] []]
     = PlanPending"
  using
    calculatePlanStatus_spec [of "[newPhase 1 (asc ''A'') Completed [] [], newPhase 2 (asc ''B'') Completed [] []]"]
    calculatePlanStatus_spec [of "[newPhase 1 (asc ''A'') Completed [] [], newPhase 2 (asc ''B'') Pending [] []]"]
    calculatePlanStatus_spec [of "[newPhase 1 (asc ''A'') Pending [] [], newPhase 2 (asc ''B'') Pending [] []]"]
  by (simp add: newPhase_def)

section \<open>Anchored patterns\<close>

lemma noFlags_sel:
  "ignoreCase noFlags = False" "multiline noFlags = False" "unicode noFlags = False"
  by (simp_all add: noFlags_def)

lemma canonicalize_noFlags: "canonicalize noFlags c = c"
  by (simp add: canonicalize_def noFlags_sel)

text \<open>Without the flag \<open>m\<close>, a pattern that starts with \<open>^\<close> matches at the start of the text or not at all.\<close>

lemma searchFrom_anchored:
  "searchFrom noFlags (Seq Bol r) (Some c) s = None"
  by (induction s arbitrary: c) (simp_all add: atBol_def stPrev_def noFlags_sel)

lemma exec_anchored:
  "exec noFlags (Seq Bol r) w =
     (case m noFlags r (None, w, []) Some of
        Some y \<Rightarrow> Some \<lparr>mfrom = w, mafter = stRest y, mprev = stPrev y, mcaps = stCaps y\<rparr>
      | None \<Rightarrow> None)"
  by (cases w) (simp_all add: exec_def atBol_def stPrev_def searchFrom_anchored split: option.splits)

section \<open>Matches consume what the pattern needs\<close>

lemma minLen_Rep_step:
  "mx \<noteq> Some 0 \<Longrightarrow> mn \<noteq> 0 \<Longrightarrow>
   minLen (Rep mn mx g r) = minLen r + minLen (Rep (mn - 1) (map_option (\<lambda>j. j - 1) mx) g r)"
proof (cases mx)
  case None
  assume "mn \<noteq> 0"
  with None show ?thesis by (cases mn) simp_all
next
  case (Some j)
  assume "mx \<noteq> Some 0" "mn \<noteq> 0"
  with Some obtain j' mn' where "j = Suc j'" "mn = Suc mn'"
    by (cases j; cases mn) auto
  with Some show ?thesis by simp
qed

lemma m_consumes:
  "m fl r st k = Some y \<Longrightarrow>
   \<exists>st'. k st' = Some y \<and> length (stRest st') + minLen r \<le> length (stRest st)"
proof (induction fl r st k arbitrary: y rule: m.induct)
  case (1 fl c st k)
  then show ?case
    by (auto simp add: stRest_def split: list.splits if_splits)
next
  case (2 fl P st k)
  then show ?case
    by (auto simp add: stRest_def split: list.splits if_splits)
next
  case (3 fl st k)
  then show ?case by (intro exI [of _ st]) (simp split: if_splits)
next
  case (4 fl st k)
  then show ?case by (intro exI [of _ st]) (simp split: if_splits)
next
  case (5 fl st k)
  then show ?case by (intro exI [of _ st]) simp
next
  case (6 fl r1 r2 st k)
  from "6.prems" have "m fl r1 st (\<lambda>st'. m fl r2 st' k) = Some y" by simp
  from "6.IH"(2) [OF this] obtain st1 where
    a: "m fl r2 st1 k = Some y" and b: "length (stRest st1) + minLen r1 \<le> length (stRest st)"
    by blast
  from "6.IH"(1) [OF a] obtain st2 where
    "k st2 = Some y" "length (stRest st2) + minLen r2 \<le> length (stRest st1)"
    by blast
  with b show ?case by (intro exI [of _ st2]) simp
next
  case (7 fl r1 r2 st k)
  show ?case
  proof (cases "m fl r1 st k")
    case None
    with "7.prems" have "m fl r2 st k = Some y" by simp
    from "7.IH"(2) [OF None this] obtain st' where
      "k st' = Some y" "length (stRest st') + minLen r2 \<le> length (stRest st)" by blast
    then show ?thesis by (intro exI [of _ st']) simp
  next
    case (Some z)
    with "7.prems" have "m fl r1 st k = Some y" by simp
    from "7.IH"(1) [OF this] obtain st' where
      "k st' = Some y" "length (stRest st') + minLen r1 \<le> length (stRest st)" by blast
    then show ?thesis by (intro exI [of _ st']) simp
  qed
next
  case (8 fl n r st k)
  from "8.prems" "8.IH" [of y] obtain st' where
    "k (stPrev st', stRest st', (n, take (length (stRest st) - length (stRest st')) (stRest st)) # stCaps st') = Some y"
    "length (stRest st') + minLen r \<le> length (stRest st)"
    by auto
  then show ?case
    by (intro exI [of _ "(stPrev st', stRest st', (n, take (length (stRest st) - length (stRest st')) (stRest st)) # stCaps st')"])
       (simp add: stRest_def)
next
  case (9 fl mn mx g r pv cs k)
  let ?st = "(pv, [], cs)"
  let ?next = "Rep (mn - 1) (map_option (\<lambda>j. j - 1) mx) g r"
  show ?case
  proof (cases "mx \<noteq> Some 0 \<and> mn \<noteq> 0")
    case True
    with "9.prems" have "m fl r (clearCaps r ?st) (\<lambda>st'. m fl ?next st' k) = Some y"
      by simp
    from "9.IH" True this obtain st1 where
      a: "m fl ?next st1 k = Some y"
      and b: "length (stRest st1) + minLen r \<le> length (stRest (clearCaps r ?st))"
      by blast
    from "9.IH" True a obtain st2 where
      c: "k st2 = Some y" and d: "length (stRest st2) + minLen ?next \<le> length (stRest st1)"
      by blast
    from True have "minLen (Rep mn mx g r) = minLen r + minLen ?next"
      by (intro minLen_Rep_step) simp_all
    with b c d show ?thesis
      by (intro exI [of _ st2]) (simp add: clearCaps_def stRest_def)
  next
    case False
    with "9.prems" have "k ?st = Some y"
      by (auto split: if_splits)
    moreover from False have "minLen (Rep mn mx g r) = 0"
      by (auto split: option.splits)
    ultimately show ?thesis
      by (intro exI [of _ ?st]) simp
  qed
next
  case (10 fl mn mx g r pv x xs cs k)
  let ?st = "(pv, x # xs, cs)"
  let ?next = "Rep (mn - 1) (map_option (\<lambda>j. j - 1) mx) g r"
  let ?zero = "Rep 0 (map_option (\<lambda>j. j - 1) mx) g r"
  let ?again = "\<lambda>st'. if length (stRest st') < Suc (length xs) then m fl ?zero st' k else None"
  show ?case
  proof (cases "mx = Some 0")
    case True
    with "10.prems" have "k ?st = Some y" by simp
    moreover from True have "minLen (Rep mn mx g r) = 0" by simp
    ultimately show ?thesis by (intro exI [of _ ?st]) simp
  next
    case mx: False
    show ?thesis
    proof (cases "mn = 0")
      case False
      with mx "10.prems" have "m fl r (clearCaps r ?st) (\<lambda>st'. m fl ?next st' k) = Some y"
        by simp
      from "10.IH" mx False this obtain st1 where
        a: "m fl ?next st1 k = Some y"
        and b: "length (stRest st1) + minLen r \<le> length (stRest (clearCaps r ?st))"
        by blast
      from "10.IH" mx False a obtain st2 where
        c: "k st2 = Some y" and d: "length (stRest st2) + minLen ?next \<le> length (stRest st1)"
        by blast
      from mx False have "minLen (Rep mn mx g r) = minLen r + minLen ?next"
        by (intro minLen_Rep_step) simp_all
      with b c d show ?thesis
        by (intro exI [of _ st2]) (simp add: clearCaps_def stRest_def)
    next
      case mn: True
      then have z: "minLen (Rep mn mx g r) = 0"
        by (simp split: option.splits)
      have iter: "\<exists>st'. k st' = Some y \<and> length (stRest st') \<le> length (stRest ?st)"
        if it: "m fl r (clearCaps r ?st) ?again = Some y" and
           ih1: "\<And>y. m fl r (clearCaps r ?st) ?again = Some y \<Longrightarrow>
                  \<exists>st'. ?again st' = Some y \<and> length (stRest st') + minLen r \<le> length (stRest (clearCaps r ?st))" and
           ih2: "\<And>st' y. length (stRest st') < Suc (length xs) \<Longrightarrow> m fl ?zero st' k = Some y \<Longrightarrow>
                  \<exists>st''. k st'' = Some y \<and> length (stRest st'') + minLen ?zero \<le> length (stRest st')"
      proof -
        from ih1 [OF it] obtain st1 where
          a: "?again st1 = Some y"
          and b: "length (stRest st1) + minLen r \<le> length (stRest (clearCaps r ?st))"
          by blast
        from a have l: "length (stRest st1) < Suc (length xs)" and a': "m fl ?zero st1 k = Some y"
          by (auto split: if_splits)
        from ih2 [OF l a'] obtain st2 where
          "k st2 = Some y" "length (stRest st2) + minLen ?zero \<le> length (stRest st1)"
          by blast
        with b show ?thesis
          by (intro exI [of _ st2]) (simp add: clearCaps_def stRest_def)
      qed
      have unfold: "m fl (Rep mn mx g r) ?st k =
          (if g then (case m fl r (clearCaps r ?st) ?again of Some y \<Rightarrow> Some y | None \<Rightarrow> k ?st)
           else (case k ?st of Some y \<Rightarrow> Some y | None \<Rightarrow> m fl r (clearCaps r ?st) ?again))"
        using mx mn by simp
      show ?thesis
      proof (cases g)
        case True
        then have "(if g then (case m fl r (clearCaps r ?st) ?again of Some y \<Rightarrow> Some y | None \<Rightarrow> k ?st)
           else (case k ?st of Some y \<Rightarrow> Some y | None \<Rightarrow> m fl r (clearCaps r ?st) ?again))
           = (case m fl r (clearCaps r ?st) ?again of Some y \<Rightarrow> Some y | None \<Rightarrow> k ?st)"
          by (rule if_P)
        with unfold "10.prems" have p: "(case m fl r (clearCaps r ?st) ?again of Some y \<Rightarrow> Some y | None \<Rightarrow> k ?st) = Some y"
          by (simp only:)
        show ?thesis
        proof (cases "m fl r (clearCaps r ?st) ?again")
          case None
          with p have "k ?st = Some y" by (simp only: option.case)
          with z show ?thesis by (intro exI [of _ ?st]) simp
        next
          case (Some z')
          with p have it: "m fl r (clearCaps r ?st) ?again = Some y" by (simp only: option.case)
          have "\<exists>st'. k st' = Some y \<and> length (stRest st') \<le> length (stRest ?st)"
            by (rule iter [OF it]) (use "10.IH" mx mn True in blast)+
          then show ?thesis unfolding z by simp
        qed
      next
        case False
        then have "(if g then (case m fl r (clearCaps r ?st) ?again of Some y \<Rightarrow> Some y | None \<Rightarrow> k ?st)
           else (case k ?st of Some y \<Rightarrow> Some y | None \<Rightarrow> m fl r (clearCaps r ?st) ?again))
           = (case k ?st of Some y \<Rightarrow> Some y | None \<Rightarrow> m fl r (clearCaps r ?st) ?again)"
          by (rule if_not_P)
        with unfold "10.prems" have p: "(case k ?st of Some y \<Rightarrow> Some y | None \<Rightarrow> m fl r (clearCaps r ?st) ?again) = Some y"
          by (simp only:)
        show ?thesis
        proof (cases "k ?st")
          case (Some z')
          with p have "k ?st = Some y" by (simp only: option.case)
          with z show ?thesis by (intro exI [of _ ?st]) simp
        next
          case None
          with p have it: "m fl r (clearCaps r ?st) ?again = Some y" by (simp only: option.case)
          have "\<exists>st'. k st' = Some y \<and> length (stRest st') \<le> length (stRest ?st)"
            by (rule iter [OF it]) (use "10.IH" mx mn False None in blast)+
          then show ?thesis unfolding z by simp
        qed
      qed
    qed
  qed
qed

lemma searchFrom_consumes:
  "searchFrom fl r pv s = Some x \<Longrightarrow>
   length (mafter x) + minLen r \<le> length (mfrom x) \<and> length (mfrom x) \<le> length s"
proof (induction s arbitrary: pv)
  case Nil
  then obtain y where "m fl r (pv, [], []) Some = Some y"
    and x: "x = \<lparr>mfrom = [], mafter = stRest y, mprev = stPrev y, mcaps = stCaps y\<rparr>"
    by (auto split: option.splits)
  from m_consumes [OF this(1)] x show ?case
    by (auto simp add: stRest_def)
next
  case (Cons c cs)
  show ?case
  proof (cases "m fl r (pv, c # cs, []) Some")
    case None
    with Cons.prems have "searchFrom fl r (Some c) cs = Some x" by simp
    from Cons.IH [OF this] show ?thesis by simp
  next
    case (Some y)
    with Cons.prems
    have x: "x = \<lparr>mfrom = c # cs, mafter = stRest y, mprev = stPrev y, mcaps = stCaps y\<rparr>"
      by simp
    from m_consumes [OF Some] x show ?thesis
      by (auto simp add: stRest_def)
  qed
qed

text \<open>
  A pattern that cannot match the empty text makes the loop over its matches advance:
  the branch of \<open>execAllFrom\<close> and of \<open>replaceAllFrom\<close> for a match that consumes
  nothing is never taken. This holds for every pattern that the source uses in such a
  loop.
\<close>

lemma execAllFrom_advances:
  assumes "0 < minLen r"
  shows "execAllFrom fl r pv s =
     (case searchFrom fl r pv s of
        None \<Rightarrow> []
      | Some x \<Rightarrow> x # execAllFrom fl r (mprev x) (mafter x))"
proof (cases "searchFrom fl r pv s")
  case None
  then show ?thesis by simp
next
  case (Some x)
  from searchFrom_consumes [OF Some] assms have "length (mafter x) < length s" by simp
  with Some show ?thesis by simp
qed

lemma replaceAllFrom_advances:
  assumes "0 < minLen r"
  shows "replaceAllFrom fl r f pv s =
     (case searchFrom fl r pv s of
        None \<Rightarrow> s
      | Some x \<Rightarrow>
          take (length s - length (mfrom x)) s @ f x @ replaceAllFrom fl r f (mprev x) (mafter x))"
proof (cases "searchFrom fl r pv s")
  case None
  then show ?thesis by simp
next
  case (Some x)
  from searchFrom_consumes [OF Some] assms have "length (mafter x) < length s" by simp
  with Some show ?thesis by simp
qed

lemma loop_patterns_consume:
  "0 < minLen linkFirstRegex" "0 < minLen numberedListRegex" "0 < minLen checkboxRegex"
  "0 < minLen tableRowRegex" "0 < minLen inlinePattern" "0 < minLen boldRegex"
  "0 < minLen linkTextRegex"
  by code_simp+

section \<open>Priority\<close>

lemma test_priorityRegex:
  "test noFlags priorityRegex p \<longleftrightarrow>
     p = asc ''P0'' \<or> p = asc ''P1'' \<or> p = asc ''P2'' \<or> p = asc ''P3''"
proof -
  have "test noFlags priorityRegex p \<longleftrightarrow>
          (\<exists>d. p = [0x50, d] \<and> d \<in> {0x30, 0x31, 0x32, 0x33})"
    by (cases p; cases "tl p"; cases "tl (tl p)")
       (auto simp add: test_def priorityRegex_def seqs_def exec_anchored oneOf_def ch_def
          canonicalize_noFlags noFlags_sel atEol_def stRest_def split: option.splits list.splits)
  then show ?thesis
    by (auto simp add: asc_def)
qed

text \<open>
  The upper-casing is that of the host language: \<open>high\<close> written with the dotless i
  (U+0131) is upper-cased into \<open>HIGH\<close>, and a word with the sharp s grows by a letter.
\<close>

lemma normalizePriority_dotless_i:
  "normalizePriority (Some (asc ''h'' @ [0x131] @ asc ''gh'')) = Some (asc ''P1'')"
  "toUpperCase (asc ''stra'' @ [0xDF] @ asc ''e'') = asc ''STRASSE''"
  by code_simp+

text \<open>
  C6, as stated: every result of \<open>normalizePriority\<close> is \<open>P1\<close>, \<open>P2\<close>, \<open>P3\<close> or
  \<open>null\<close>. It is not: the input \<open>P0\<close> is handed back as \<open>P0\<close>.
\<close>

theorem normalizePriority_P0_outside:
  "\<not> (\<forall>pr. normalizePriority pr \<in> {None, Some (asc ''P1''), Some (asc ''P2''), Some (asc ''P3'')})"
proof
  assume "\<forall>pr. normalizePriority pr \<in> {None, Some (asc ''P1''), Some (asc ''P2''), Some (asc ''P3'')}"
  then have "normalizePriority (Some (asc ''P0''))
      \<in> {None, Some (asc ''P1''), Some (asc ''P2''), Some (asc ''P3'')}"
    by blast
  moreover have "normalizePriority (Some (asc ''P0'')) = Some (asc ''P0'')"
    by code_simp
  ultimately show False
    by (simp add: asc_def)
qed

text \<open>
  C6, amended. For every input, with \<open>p\<close> the upper-cased and trimmed text:
  \<open>P1\<close>, \<open>HIGH\<close> and \<open>CRITICAL\<close> give \<open>P1\<close>; \<open>P2\<close>, \<open>MEDIUM\<close> and \<open>NORMAL\<close> give \<open>P2\<close>;
  \<open>P3\<close> and \<open>LOW\<close> give \<open>P3\<close>; \<open>P0\<close>, the one other text that matches \<open>P[0-3]\<close>, is
  handed back as it is; everything else, the empty and the absent input too, gives
  \<open>null\<close>. So the result is \<open>P0\<close>, \<open>P1\<close>, \<open>P2\<close>, \<open>P3\<close> or \<open>null\<close>, and the function is
  total.
\<close>

theorem normalizePriority_spec:
  "normalizePriority pr =
     (case pr of
        None \<Rightarrow> None
      | Some s \<Rightarrow>
          if s = [] then None
          else
            let p = trim (toUpperCase s) in
            if p = asc ''P1'' \<or> p = asc ''HIGH'' \<or> p = asc ''CRITICAL'' then Some (asc ''P1'')
            else if p = asc ''P2'' \<or> p = asc ''MEDIUM'' \<or> p = asc ''NORMAL'' then Some (asc ''P2'')
            else if p = asc ''P3'' \<or> p = asc ''LOW'' then Some (asc ''P3'')
            else if p = asc ''P0'' then Some (asc ''P0'')
            else None)
   \<and> normalizePriority pr
        \<in> {None, Some (asc ''P0''), Some (asc ''P1''), Some (asc ''P2''), Some (asc ''P3'')}"
  by (auto simp add: normalizePriority_def Let_def test_priorityRegex split: option.splits)

theorem normalizePriority_spec_witness:
  "normalizePriority (Some (asc '' Critical '')) = Some (asc ''P1'')
   \<and> normalizePriority (Some (asc ''p0'')) = Some (asc ''P0'')
   \<and> normalizePriority (Some (asc ''P5'')) = None
   \<and> normalizePriority (Some []) = None"
proof -
  have a: "trim (toUpperCase (asc '' Critical '')) = asc ''CRITICAL''"
    and b: "trim (toUpperCase (asc ''p0'')) = asc ''P0''"
    and c: "trim (toUpperCase (asc ''P5'')) = asc ''P5''"
    by code_simp+
  show ?thesis
    using normalizePriority_spec [of "Some (asc '' Critical '')"]
      normalizePriority_spec [of "Some (asc ''p0'')"]
      normalizePriority_spec [of "Some (asc ''P5'')"]
      normalizePriority_spec [of "Some []"]
    by (simp add: a b c) (simp add: asc_def)
qed

section \<open>Dates from directory names\<close>

text \<open>The two examples of the claim C4 hold.\<close>

lemma parseDateFromDirName_examples:
  "map_option (\<lambda>d. (getFullYear d, getMonth d, getDate d))
     (parseDateFromDirName (asc ''260102-0609-claude-kit'')) = Some (2026, 0, 2)
   \<and> parseDateFromDirName (asc ''feature-name'') = None"
  by code_simp

text \<open>
  A year below 100 in the eight-digit form is read by \<open>new Date\<close> as 1900 plus the
  year, and a token of seven digits is read as four, two and one.
\<close>

lemma parseDateFromDirName_quirks:
  "map_option (\<lambda>d. (getFullYear d, getMonth d, getDate d))
     (parseDateFromDirName (asc ''00260101-x'')) = Some (1926, 0, 1)
   \<and> map_option (\<lambda>d. (getFullYear d, getMonth d, getDate d))
     (parseDateFromDirName (asc ''2601021-x'')) = Some (2601, 1, 1)"
  by code_simp

text \<open>
  C4. The claim: a prefix whose digits are not a valid calendar date gives absent. The
  code builds the date with \<open>new Date(year, month, day)\<close>, which rolls the overflow into
  the next month or year and never gives an invalid date, so its test \<open>isNaN\<close> finds
  nothing: 31 February 2026 comes back as 3 March 2026 and month 13 of 2026 as January
  2027.
\<close>

theorem parseDateFromDirName_rolls_over:
  "map_option (\<lambda>d. (getFullYear d, getMonth d, getDate d))
     (parseDateFromDirName (asc ''260231-x'')) = Some (2026, 2, 3)
   \<and> map_option (\<lambda>d. (getFullYear d, getMonth d, getDate d))
     (parseDateFromDirName (asc ''261301-x'')) = Some (2027, 0, 1)"
  by code_simp

section \<open>The heading-based format\<close>

lemma headingLoop_acc:
  "headingLoop pf ls acc cur = acc @ headingLoop pf ls [] cur"
proof (induction ls arbitrary: acc cur)
  case Nil
  show ?case by (simp split: option.splits)
next
  case (Cons l ls)
  show ?case
    by (subst (1 2) headingLoop.simps)
       (simp add: Let_def Cons.IH [of "acc @ _"] Cons.IH [of "[_]"] Cons.IH [of acc]
          split: option.splits)
qed

lemma headingLoop_before_first_heading:
  "\<forall>l \<in> set pre. headingOf pf l = None \<Longrightarrow>
   headingLoop pf (pre @ ls) [] None = headingLoop pf ls [] None"
  by (induction pre) (simp_all add: headingOf_def Let_def)

lemma headingLoop_heading:
  assumes "headingOf pf h = Some ph"
  shows "\<exists>st. headingLoop pf (h # ls) [] None = headingLoop pf ls [] (Some (ph\<lparr>status := st\<rparr>))"
proof (cases "exec flags_i statusLineRegex h")
  case None
  with assms have "headingLoop pf (h # ls) [] None = headingLoop pf ls [] (Some (ph\<lparr>status := status ph\<rparr>))"
    by (auto simp add: headingOf_def Let_def)
  then show ?thesis by blast
next
  case (Some x)
  with assms show ?thesis
    by (auto simp add: headingOf_def Let_def)
qed

lemma headingLoop_inside:
  "\<forall>l \<in> set a. headingOf pf l = None \<Longrightarrow>
   \<exists>st. headingLoop pf (a @ ls) [] (Some p) = headingLoop pf ls [] (Some (p\<lparr>status := st\<rparr>))"
proof (induction a arbitrary: p)
  case Nil
  have "headingLoop pf ([] @ ls) [] (Some p) = headingLoop pf ls [] (Some (p\<lparr>status := status p\<rparr>))"
    by simp
  then show ?case by blast
next
  case (Cons l a)
  then have nh: "exec flags_i headingRegex l = None" and rest: "\<forall>l \<in> set a. headingOf pf l = None"
    by (simp_all add: headingOf_def)
  obtain st0 where step: "headingLoop pf ((l # a) @ ls) [] (Some p) = headingLoop pf (a @ ls) [] (Some (p\<lparr>status := st0\<rparr>))"
  proof (cases "exec flags_i statusLineRegex l")
    case None
    with nh have "headingLoop pf ((l # a) @ ls) [] (Some p) = headingLoop pf (a @ ls) [] (Some (p\<lparr>status := status p\<rparr>))"
      by (simp add: Let_def)
    then show ?thesis using that by blast
  next
    case (Some x)
    with nh have "headingLoop pf ((l # a) @ ls) [] (Some p)
        = headingLoop pf (a @ ls) [] (Some (p\<lparr>status := normalizeStatus (Some (groupText x 1))\<rparr>))"
      by (simp add: Let_def)
    then show ?thesis using that by blast
  qed
  from Cons.IH [OF rest, of "p\<lparr>status := st0\<rparr>"] obtain st where
    "headingLoop pf (a @ ls) [] (Some (p\<lparr>status := st0\<rparr>)) = headingLoop pf ls [] (Some (p\<lparr>status := st\<rparr>))"
    by auto
  with step show ?case by auto
qed

lemma headingLoop_status_line:
  assumes "headingOf pf s = None" and "statusOf s = Some st"
  shows "headingLoop pf (s # ls) [] (Some p) = headingLoop pf ls [] (Some (p\<lparr>status := st\<rparr>))"
  using assms by (auto simp add: headingOf_def statusOf_def Let_def)

lemma headingLoop_no_status:
  "\<forall>l \<in> set b. headingOf pf l = None \<and> statusOf l = None \<Longrightarrow>
   headingLoop pf (b @ ls) [] (Some p) = headingLoop pf ls [] (Some p)"
  by (induction b) (simp_all add: headingOf_def statusOf_def Let_def)

lemma headingLoop_flush:
  assumes "ls = [] \<or> headingOf pf (hd ls) \<noteq> None"
  shows "headingLoop pf ls [] (Some p) = p # headingLoop pf ls [] None"
proof (cases ls)
  case Nil
  then show ?thesis by simp
next
  case (Cons h r)
  with assms obtain x where x: "exec flags_i headingRegex h = Some x"
    by (auto simp add: headingOf_def)
  show ?thesis
    unfolding Cons
    by (subst (1 2) headingLoop.simps)
       (simp add: x Let_def headingLoop_acc [of _ _ "[p]"] split: option.splits)
qed

lemma headingLoop_no_heading:
  "\<forall>l \<in> set pre. headingOf pf l = None \<Longrightarrow> headingLoop pf pre [] None = []"
  using headingLoop_before_first_heading [of pre pf "[]"] by simp

lemma headingLoop_split:
  assumes "headingOf pf h = Some ph"
  shows "headingLoop pf (pre @ h # ls) acc cur
           = headingLoop pf pre acc cur @ headingLoop pf (h # ls) [] None"
proof (induction pre arbitrary: acc cur)
  case Nil
  from assms obtain x where x: "exec flags_i headingRegex h = Some x"
    by (auto simp add: headingOf_def)
  show ?case
    by (cases cur)
       (simp_all add: x Let_def headingLoop_acc [of _ _ "acc @ _"] headingLoop_acc [of _ _ acc]
          headingLoop_acc [of _ _ "[_]"] split: option.splits)
next
  case (Cons l pre)
  show ?case
    by (simp add: Let_def Cons.IH split: option.splits)
qed

text \<open>
  C10. In a document whose lines are \<open>pre\<close>, a phase heading \<open>h\<close>, lines \<open>a\<close>, a status
  line \<open>s\<close>, lines \<open>b\<close> and \<open>rest\<close>, where no line of \<open>a\<close>, \<open>s\<close> or \<open>b\<close> is a phase heading,
  no line of \<open>b\<close> is a status line, and \<open>rest\<close> is empty or starts with the next phase
  heading: the result is the phases of \<open>pre\<close>, then the phase of \<open>h\<close> with the normalised
  status of \<open>s\<close>, the last status line before the next heading, whatever status lines
  \<open>a\<close> holds, then the phases of \<open>rest\<close>. When \<open>h\<close> is the first heading, the lines of
  \<open>pre\<close>, status lines or not, leave no trace.
\<close>

theorem heading_last_status_wins:
  assumes "split_on newline content = pre @ h # a @ s # b @ rest"
    and "headingOf pf h = Some ph"
    and "\<forall>l \<in> set a. headingOf pf l = None"
    and "headingOf pf s = None" and "statusOf s = Some st"
    and "\<forall>l \<in> set b. headingOf pf l = None \<and> statusOf l = None"
    and "rest = [] \<or> headingOf pf (hd rest) \<noteq> None"
  shows "parseHeadingBased content pf
           = headingLoop pf pre [] None @ ph\<lparr>status := st\<rparr> # headingLoop pf rest [] None
         \<and> ((\<forall>l \<in> set pre. headingOf pf l = None) \<longrightarrow>
               parseHeadingBased content pf = ph\<lparr>status := st\<rparr> # headingLoop pf rest [] None)"
proof -
  have "headingLoop pf (h # a @ s # b @ rest) [] None
      = ph\<lparr>status := st\<rparr> # headingLoop pf rest [] None"
  proof -
    obtain st1 where "headingLoop pf (h # a @ s # b @ rest) [] None
        = headingLoop pf (a @ s # b @ rest) [] (Some (ph\<lparr>status := st1\<rparr>))"
      using headingLoop_heading [OF assms(2)] by blast
    also obtain st2 where "\<dots> = headingLoop pf (s # b @ rest) [] (Some (ph\<lparr>status := st2\<rparr>))"
      using headingLoop_inside [OF assms(3), of "s # b @ rest" "ph\<lparr>status := st1\<rparr>"] by auto
    also have "\<dots> = headingLoop pf (b @ rest) [] (Some (ph\<lparr>status := st\<rparr>))"
      using headingLoop_status_line [OF assms(4,5)] by simp
    also have "\<dots> = headingLoop pf rest [] (Some (ph\<lparr>status := st\<rparr>))"
      using headingLoop_no_status [OF assms(6)] by simp
    also have "\<dots> = ph\<lparr>status := st\<rparr> # headingLoop pf rest [] None"
      using headingLoop_flush [OF assms(7)] by simp
    finally show ?thesis .
  qed
  then have main: "parseHeadingBased content pf
      = headingLoop pf pre [] None @ ph\<lparr>status := st\<rparr> # headingLoop pf rest [] None"
    using assms(1) by (simp add: parseHeadingBased_def headingLoop_split [OF assms(2)])
  then show ?thesis
    by (simp add: headingLoop_no_heading)
qed

theorem heading_last_status_wins_witness:
  "parseHeadingBased
     (join_with newline
        [asc ''Plan'', asc ''- Status: done'', asc ''### Phase 1: Setup'',
         asc ''- Status: pending'', asc ''- Status: in progress'', asc ''### Phase 2: Build''])
     (asc ''/ws/plans/a/plan.md'')
   = [newPhase 1 (asc ''Setup'') InProgress (asc ''/ws/plans/a/plan.md'') (asc ''Phase 1''),
      newPhase 2 (asc ''Build'') Pending (asc ''/ws/plans/a/plan.md'') (asc ''Phase 2'')]"
proof -
  let ?pf = "asc ''/ws/plans/a/plan.md''"
  let ?content = "join_with newline
        [asc ''Plan'', asc ''- Status: done'', asc ''### Phase 1: Setup'',
         asc ''- Status: pending'', asc ''- Status: in progress'', asc ''### Phase 2: Build'']"
  have 1: "split_on newline ?content
      = [asc ''Plan'', asc ''- Status: done''] @ asc ''### Phase 1: Setup''
        # [asc ''- Status: pending''] @ asc ''- Status: in progress'' # [] @ [asc ''### Phase 2: Build'']"
    by code_simp
  have 2: "\<forall>l \<in> set [asc ''Plan'', asc ''- Status: done'']. headingOf ?pf l = None"
    by code_simp
  have 3: "headingOf ?pf (asc ''### Phase 1: Setup'')
      = Some (newPhase 1 (asc ''Setup'') Pending ?pf (asc ''Phase 1''))"
    by code_simp
  have 4: "\<forall>l \<in> set [asc ''- Status: pending'']. headingOf ?pf l = None"
    by code_simp
  have 5: "headingOf ?pf (asc ''- Status: in progress'') = None"
    by code_simp
  have 6: "statusOf (asc ''- Status: in progress'') = Some InProgress"
    by code_simp
  have 7: "\<forall>l \<in> set []. headingOf ?pf l = None \<and> statusOf l = None"
    by simp
  have 8: "[asc ''### Phase 2: Build''] = [] \<or> headingOf ?pf (hd [asc ''### Phase 2: Build'']) \<noteq> None"
    by code_simp
  have tail: "headingLoop ?pf [asc ''### Phase 2: Build''] [] None
      = [newPhase 2 (asc ''Build'') Pending ?pf (asc ''Phase 2'')]"
    by code_simp
  have upd: "(newPhase 1 (asc ''Setup'') Pending ?pf (asc ''Phase 1''))\<lparr>status := InProgress\<rparr>
      = newPhase 1 (asc ''Setup'') InProgress ?pf (asc ''Phase 1'')"
    by (simp add: newPhase_def)
  have pre: "headingLoop ?pf [asc ''Plan'', asc ''- Status: done''] [] None = []"
    by code_simp
  show ?thesis
    using heading_last_status_wins [OF 1 3 4 5 6 7 8] 2
    by (simp only: tail upd pre append_Nil simp_thms)
qed

section \<open>Enrichment\<close>

lemma enrich_length: "length (enrichPhasesWithFileMetadata e ps) = length ps"
  by (simp add: enrichPhasesWithFileMetadata_def)

lemma override_parse:
  "parsePlanTable overrideEnv (asc ''/ws/plans/a/plan.md'')
     = Inr [newPhase 1 (asc ''Setup'') Completed (asc ''/ws/plans/a/phase-01-x.md'') (asc ''Phase 1'')]"
  by code_simp

lemma override_read: "readFile overrideEnv (asc ''/ws/plans/a/plan.md'') = Inr overridePlan"
  by code_simp

text \<open>
  C5. The enriched list has the length and the order of the input. At every position
  the phase number, name, file and link text are those of the input; the phase is
  unchanged when its file path does not contain \<open>phase-\<close>, when the extraction throws
  and when it finds nothing; when it finds metadata, the status is the extracted one and
  the effort the extracted one if that is truthy, the old one otherwise. In the scenario
  of the specification the table of the plan yields phase 1 as pending and the parse of
  the plan yields it as completed.
\<close>

theorem enrich_spec:
  "length (enrichPhasesWithFileMetadata e ps) = length ps
   \<and> (\<forall>i < length ps.
        let p = ps ! i; q = enrichPhasesWithFileMetadata e ps ! i in
        phase q = phase p \<and> name q = name p \<and> file_path q = file_path p
        \<and> linkText q = linkText p
        \<and> (\<not> includes_str (file_path p) (asc ''phase-'') \<longrightarrow> q = p)
        \<and> (\<forall>err. extractPhaseMetadata e (file_path p) = Inl err \<longrightarrow> q = p)
        \<and> (extractPhaseMetadata e (file_path p) = Inr None \<longrightarrow> q = p)
        \<and> (\<forall>md. includes_str (file_path p) (asc ''phase-'')
              \<and> extractPhaseMetadata e (file_path p) = Inr (Some md)
              \<longrightarrow> status q = md_status md
                  \<and> effort q = (if truthy (md_effort md) then md_effort md else effort p)))
   \<and> parseMultiColumnTable overrideEnv overridePlan (asc ''/ws/plans/a'') (asc ''/ws/plans/a/plan.md'')
        = [newPhase 1 (asc ''Setup'') Pending (asc ''/ws/plans/a/phase-01-x.md'') (asc ''Phase 1'')]
   \<and> parsePlanTable overrideEnv (asc ''/ws/plans/a/plan.md'')
        = Inr [newPhase 1 (asc ''Setup'') Completed (asc ''/ws/plans/a/phase-01-x.md'') (asc ''Phase 1'')]"
proof (intro conjI allI impI)
  show "length (enrichPhasesWithFileMetadata e ps) = length ps"
    by (rule enrich_length)
next
  fix i assume i: "i < length ps"
  have ne: "includes_str (file_path (ps ! i)) (asc ''phase-'') \<Longrightarrow> file_path (ps ! i) \<noteq> []"
    by (auto simp add: includes_str_def asc_def)
  from i have q: "enrichPhasesWithFileMetadata e ps ! i = enrichPhase e (ps ! i)"
    by (simp add: enrichPhasesWithFileMetadata_def)
  show "let p = ps ! i; q = enrichPhasesWithFileMetadata e ps ! i in
        phase q = phase p \<and> name q = name p \<and> file_path q = file_path p
        \<and> linkText q = linkText p
        \<and> (\<not> includes_str (file_path p) (asc ''phase-'') \<longrightarrow> q = p)
        \<and> (\<forall>err. extractPhaseMetadata e (file_path p) = Inl err \<longrightarrow> q = p)
        \<and> (extractPhaseMetadata e (file_path p) = Inr None \<longrightarrow> q = p)
        \<and> (\<forall>md. includes_str (file_path p) (asc ''phase-'')
              \<and> extractPhaseMetadata e (file_path p) = Inr (Some md)
              \<longrightarrow> status q = md_status md
                  \<and> effort q = (if truthy (md_effort md) then md_effort md else effort p))"
    unfolding Let_def q
    using ne by (auto simp add: enrichPhase_def orElse_def split: sum.splits option.splits)
next
  show "parseMultiColumnTable overrideEnv overridePlan (asc ''/ws/plans/a'') (asc ''/ws/plans/a/plan.md'')
        = [newPhase 1 (asc ''Setup'') Pending (asc ''/ws/plans/a/phase-01-x.md'') (asc ''Phase 1'')]"
    by code_simp
next
  show "parsePlanTable overrideEnv (asc ''/ws/plans/a/plan.md'')
        = Inr [newPhase 1 (asc ''Setup'') Completed (asc ''/ws/plans/a/phase-01-x.md'') (asc ''Phase 1'')]"
    by (rule override_parse)
qed


theorem enrich_spec_witness:
  "enrichPhasesWithFileMetadata overrideEnv
     [newPhase 1 (asc ''Setup'') Pending (asc ''/ws/plans/a/phase-01-x.md'') (asc ''Phase 1''),
      newPhase 2 (asc ''Build'') InProgress (asc ''/ws/plans/a/plan.md'') (asc ''Build''),
      newPhase 3 (asc ''Ship'') Pending (asc ''/ws/plans/a/phase-03-y.md'') (asc ''Phase 3'')]
   = [newPhase 1 (asc ''Setup'') Completed (asc ''/ws/plans/a/phase-01-x.md'') (asc ''Phase 1''),
      newPhase 2 (asc ''Build'') InProgress (asc ''/ws/plans/a/plan.md'') (asc ''Build''),
      newPhase 3 (asc ''Ship'') Pending (asc ''/ws/plans/a/phase-03-y.md'') (asc ''Phase 3'')]"
proof -
  let ?p1 = "newPhase 1 (asc ''Setup'') Pending (asc ''/ws/plans/a/phase-01-x.md'') (asc ''Phase 1'')"
  let ?p2 = "newPhase 2 (asc ''Build'') InProgress (asc ''/ws/plans/a/plan.md'') (asc ''Build'')"
  let ?p3 = "newPhase 3 (asc ''Ship'') Pending (asc ''/ws/plans/a/phase-03-y.md'') (asc ''Phase 3'')"
  let ?ps = "[?p1, ?p2, ?p3]"
  let ?qs = "enrichPhasesWithFileMetadata overrideEnv ?ps"
  have inc1: "includes_str (file_path ?p1) (asc ''phase-'')"
    and inc2: "\<not> includes_str (file_path ?p2) (asc ''phase-'')"
    by code_simp+
  have md1: "extractPhaseMetadata overrideEnv (file_path ?p1)
      = Inr (Some (emptyMetadata\<lparr>md_status := Completed\<rparr>))"
    and md3: "extractPhaseMetadata overrideEnv (file_path ?p3) = Inr None"
    by code_simp+
  from enrich_spec [of overrideEnv ?ps]
  have len: "length ?qs = 3"
    and all: "\<And>i. i < 3 \<Longrightarrow>
        phase (?qs ! i) = phase (?ps ! i) \<and> name (?qs ! i) = name (?ps ! i)
        \<and> file_path (?qs ! i) = file_path (?ps ! i) \<and> linkText (?qs ! i) = linkText (?ps ! i)
        \<and> (\<not> includes_str (file_path (?ps ! i)) (asc ''phase-'') \<longrightarrow> ?qs ! i = ?ps ! i)
        \<and> (extractPhaseMetadata overrideEnv (file_path (?ps ! i)) = Inr None \<longrightarrow> ?qs ! i = ?ps ! i)
        \<and> (\<forall>md. includes_str (file_path (?ps ! i)) (asc ''phase-'')
              \<and> extractPhaseMetadata overrideEnv (file_path (?ps ! i)) = Inr (Some md)
              \<longrightarrow> status (?qs ! i) = md_status md
                  \<and> effort (?qs ! i) = (if truthy (md_effort md) then md_effort md else effort (?ps ! i)))"
    by (simp_all add: Let_def)
  from all [of 0] inc1 md1
  have q0: "?qs ! 0 = newPhase 1 (asc ''Setup'') Completed (asc ''/ws/plans/a/phase-01-x.md'') (asc ''Phase 1'')"
    by (simp add: newPhase_def emptyMetadata_def)
  from all [of 1] inc2 have q1: "?qs ! 1 = ?p2"
    by simp
  from all [of 2] md3 have q2: "?qs ! 2 = ?p3"
    by simp
  from len obtain a b c where abc: "?qs = [a, b, c]"
    by (auto simp add: length_Suc_conv numeral_3_eq_3)
  with q0 q1 q2 show ?thesis
    by simp
qed

section \<open>The order of the strategies\<close>

text \<open>
  C3, as stated: the parser returns the result of the first strategy that is not empty.
  It returns that list after enrichment: for the plan in the link-first format the
  strategy yields phase 1 as pending and the parser returns it as completed.
\<close>

theorem parsePlanTable_not_raw_strategy_result:
  "readFile linkFirstEnv (asc ''/ws/plans/b/plan.md'') = Inr linkFirstPlan
   \<and> parsePlanTable linkFirstEnv (asc ''/ws/plans/b/plan.md'')
       \<noteq> Inr (firstNonEmpty (strategies linkFirstEnv linkFirstPlan
                (dirname (asc ''/ws/plans/b/plan.md'')) (asc ''/ws/plans/b/plan.md'')))"
proof -
  have r: "readFile linkFirstEnv (asc ''/ws/plans/b/plan.md'') = Inr linkFirstPlan"
    by code_simp
  have a: "parsePlanTable linkFirstEnv (asc ''/ws/plans/b/plan.md'')
      = Inr [newPhase 1 (asc ''Setup'') Completed (asc ''/ws/plans/b/phase-01-x.md'') (asc ''Phase 1'')]"
    by code_simp
  have b: "firstNonEmpty (strategies linkFirstEnv linkFirstPlan
                (dirname (asc ''/ws/plans/b/plan.md'')) (asc ''/ws/plans/b/plan.md''))
      = [newPhase 1 (asc ''Setup'') Pending (asc ''/ws/plans/b/phase-01-x.md'') (asc ''Phase 1'')]"
    by code_simp
  show ?thesis
    by (simp add: r a b newPhase_def)
qed

text \<open>
  C3, amended. For every document that can be read, the parser returns the enrichment by
  the phase files of the result of the first strategy, in the order multi-column table,
  link-first table, numbered list, heading-based, checkbox list, that is not empty, and
  the empty list when every strategy yields no phase.
\<close>

theorem parsePlanTable_first_strategy:
  assumes "readFile e p = Inr content"
  shows "parsePlanTable e p
    = Inr (enrichPhasesWithFileMetadata e (firstNonEmpty (strategies e content (dirname p) p)))"
  using assms
  by (simp add: parsePlanTable_def strategies_def Let_def enrichPhasesWithFileMetadata_def)

theorem parsePlanTable_first_strategy_witness:
  "parsePlanTable linkFirstEnv (asc ''/ws/plans/b/plan.md'')
    = Inr (enrichPhasesWithFileMetadata linkFirstEnv
        [newPhase 1 (asc ''Setup'') Pending (asc ''/ws/plans/b/phase-01-x.md'') (asc ''Phase 1'')])"
proof -
  have r: "readFile linkFirstEnv (asc ''/ws/plans/b/plan.md'') = Inr linkFirstPlan"
    by code_simp
  have b: "firstNonEmpty (strategies linkFirstEnv linkFirstPlan
                (dirname (asc ''/ws/plans/b/plan.md'')) (asc ''/ws/plans/b/plan.md''))
      = [newPhase 1 (asc ''Setup'') Pending (asc ''/ws/plans/b/phase-01-x.md'') (asc ''Phase 1'')]"
    by code_simp
  show ?thesis
    using parsePlanTable_first_strategy [OF r] by (simp only: b)
qed


section \<open>Errors\<close>

lemma parsePlans_lookup:
  "parsePlans e fs f =
     (if f \<in> set fs
      then Some (case parsePlanTable e f of Inl err \<Rightarrow> [] | Inr ps \<Rightarrow> ps)
      else None)"
  by (simp add: parsePlans_def map_of_map_restrict restrict_map_def)

text \<open>
  C9. The parse of a plan fails with an error exactly when the read of the plan file
  fails with it. A phase whose file cannot be read (the extraction throws, or the file
  cannot be accessed) is returned as it is, and a frontmatter block on which the library
  throws counts as no frontmatter. \<open>parsePlans\<close> has a result for every file it is
  given: the phases of the file, the empty list when its parse failed.
\<close>

theorem parse_errors:
  "(parsePlanTable e p = Inl err \<longleftrightarrow> readFile e p = Inl err)
   \<and> (\<forall>err'. extractPhaseMetadata e (file_path ph) = Inl err' \<longrightarrow> enrichPhase e ph = ph)
   \<and> (\<not> access e (file_path ph) \<longrightarrow> enrichPhase e ph = ph)
   \<and> (matter e c = None \<longrightarrow> extractFromFrontmatter e c = None)
   \<and> dom (parsePlans e fs) = set fs
   \<and> (\<forall>f \<in> set fs.
        parsePlans e fs f = Some (case parsePlanTable e f of Inl err' \<Rightarrow> [] | Inr ps \<Rightarrow> ps))"
proof (intro conjI allI impI ballI)
  show "parsePlanTable e p = Inl err \<longleftrightarrow> readFile e p = Inl err"
    by (cases "readFile e p") (simp_all add: parsePlanTable_def Let_def)
next
  fix err' assume "extractPhaseMetadata e (file_path ph) = Inl err'"
  then show "enrichPhase e ph = ph"
    by (simp add: enrichPhase_def)
next
  assume "\<not> access e (file_path ph)"
  then show "enrichPhase e ph = ph"
    by (simp add: enrichPhase_def extractPhaseMetadata_def)
next
  assume "matter e c = None"
  then show "extractFromFrontmatter e c = None"
    by (simp add: extractFromFrontmatter_def)
next
  show "dom (parsePlans e fs) = set fs"
    by (auto simp add: parsePlans_lookup dom_def)
next
  fix f assume "f \<in> set fs"
  then show "parsePlans e fs f = Some (case parsePlanTable e f of Inl err' \<Rightarrow> [] | Inr ps \<Rightarrow> ps)"
    by (simp add: parsePlans_lookup)
qed

theorem parse_errors_witness:
  "parsePlanTable brokenEnv (asc ''/ws/plans/none/plan.md'') = Inl ENOENT
   \<and> enrichPhase brokenEnv
         (newPhase 1 (asc ''Setup'') Pending (asc ''/ws/plans/a/phase-01-x.md'') (asc ''Phase 1''))
       = newPhase 1 (asc ''Setup'') Pending (asc ''/ws/plans/a/phase-01-x.md'') (asc ''Phase 1'')
   \<and> enrichPhase brokenEnv
         (newPhase 2 (asc ''Build'') Pending (asc ''/ws/plans/a/phase-02-y.md'') (asc ''Phase 2''))
       = newPhase 2 (asc ''Build'') Pending (asc ''/ws/plans/a/phase-02-y.md'') (asc ''Phase 2'')
   \<and> extractFromFrontmatter brokenEnv (asc ''---'') = None
   \<and> parsePlans brokenEnv [asc ''/ws/plans/none/plan.md'', asc ''/ws/plans/a/plan.md'']
         (asc ''/ws/plans/none/plan.md'') = Some []
   \<and> parsePlans brokenEnv [asc ''/ws/plans/none/plan.md'', asc ''/ws/plans/a/plan.md'']
         (asc ''/ws/plans/a/plan.md'')
       = Some [newPhase 1 (asc ''Setup'') Pending (asc ''/ws/plans/a/phase-01-x.md'') (asc ''Phase 1'')]"
proof -
  let ?p1 = "newPhase 1 (asc ''Setup'') Pending (asc ''/ws/plans/a/phase-01-x.md'') (asc ''Phase 1'')"
  let ?p2 = "newPhase 2 (asc ''Build'') Pending (asc ''/ws/plans/a/phase-02-y.md'') (asc ''Phase 2'')"
  let ?fs = "[asc ''/ws/plans/none/plan.md'', asc ''/ws/plans/a/plan.md'']"
  have r: "readFile brokenEnv (asc ''/ws/plans/none/plan.md'') = Inl ENOENT"
    by code_simp
  have x1: "extractPhaseMetadata brokenEnv (file_path ?p1) = Inl EISDIR"
    by code_simp
  have x2: "\<not> access brokenEnv (file_path ?p2)"
    by code_simp
  have mt: "matter brokenEnv (asc ''---'') = None"
    by (simp add: brokenEnv_def)
  have good: "parsePlanTable brokenEnv (asc ''/ws/plans/a/plan.md'') = Inr [?p1]"
    by code_simp
  have mem: "asc ''/ws/plans/none/plan.md'' \<in> set ?fs" "asc ''/ws/plans/a/plan.md'' \<in> set ?fs"
    by simp_all
  note a = parse_errors [of brokenEnv "asc ''/ws/plans/none/plan.md''" ENOENT ?p1 "asc ''---''" ?fs]
  note b = parse_errors [of brokenEnv "asc ''/ws/plans/none/plan.md''" ENOENT ?p2 "asc ''---''" ?fs]
  from a r have e1: "parsePlanTable brokenEnv (asc ''/ws/plans/none/plan.md'') = Inl ENOENT"
    by blast
  from a x1 have e2: "enrichPhase brokenEnv ?p1 = ?p1"
    by blast
  from b x2 have e3: "enrichPhase brokenEnv ?p2 = ?p2"
    by blast
  from a mt have e4: "extractFromFrontmatter brokenEnv (asc ''---'') = None"
    by blast
  from a mem have e5: "parsePlans brokenEnv ?fs (asc ''/ws/plans/none/plan.md'')
      = Some (case parsePlanTable brokenEnv (asc ''/ws/plans/none/plan.md'') of Inl err' \<Rightarrow> [] | Inr ps \<Rightarrow> ps)"
    and e6: "parsePlans brokenEnv ?fs (asc ''/ws/plans/a/plan.md'')
      = Some (case parsePlanTable brokenEnv (asc ''/ws/plans/a/plan.md'') of Inl err' \<Rightarrow> [] | Inr ps \<Rightarrow> ps)"
    by blast+
  show ?thesis
    using e1 e2 e3 e4 e5 e6 good by simp
qed


section \<open>Dependency table exclusion\<close>

subsection \<open>The scan of the tables\<close>

text \<open>
  The header that Step 1 finds is the first status header from the start line on, and
  the table after a header is the run of lines with a pipe.
\<close>

lemma readHeader_index: "headerIndex (readHeader i cols k) = i"
  by (simp add: readHeader_def Let_def)

lemma readHeader_rejected:
  "phaseColIndex (readHeader i (headerCols l) k) = -1 \<and> nameColIndex (readHeader i (headerCols l) k) = -1
     \<and> descColIndex (readHeader i (headerCols l) k) = -1 \<longleftrightarrow> \<not> phaseRelated l"
  by (auto simp add: phaseRelated_def readHeader_def Let_def)

lemma findHeader_None: "\<forall>l \<in> set ls. \<not> statusHeader l \<Longrightarrow> findHeader i ls = None"
  by (induction ls arbitrary: i) (auto simp add: statusHeader_def Let_def)

lemma findHeader_Some:
  "findHeader i ls = Some h \<Longrightarrow>
     \<exists>l \<in> set ls. \<exists>k. statusHeader l \<and> h = readHeader (headerIndex h) (headerCols l) k \<and> i \<le> headerIndex h"
proof (induction ls arbitrary: i)
  case Nil
  then show ?case by simp
next
  case (Cons l ls)
  show ?case
  proof (cases "statusHeader l")
    case True
    with Cons.prems
    have "h = readHeader i (headerCols l)
                (findIndex (\<lambda>c. c = asc ''status'' \<or> includes_str c (asc ''status'')) (headerCols l))"
      by (auto simp add: statusHeader_def Let_def)
    with True show ?thesis
      by (intro bexI [of _ l] exI [of _ "findIndex (\<lambda>c. c = asc ''status'' \<or> includes_str c (asc ''status'')) (headerCols l)"])
         (simp_all add: readHeader_index)
  next
    case False
    with Cons.prems have "findHeader (Suc i) ls = Some h"
      by (auto simp add: statusHeader_def Let_def split: if_splits)
    from Cons.IH [OF this] obtain l' k where
      "l' \<in> set ls" "statusHeader l'" "h = readHeader (headerIndex h) (headerCols l') k" "Suc i \<le> headerIndex h"
      by blast
    then show ?thesis
      by (intro bexI [of _ l'] exI [of _ k]) simp_all
  qed
qed

lemma findHeader_first:
  assumes "\<forall>l \<in> set pre. \<not> statusHeader l" and "statusHeader hdr"
  shows "\<exists>k. findHeader i (pre @ hdr # rest) = Some (readHeader (i + length pre) (headerCols hdr) k)"
  using assms
proof (induction pre arbitrary: i)
  case Nil
  then show ?case
    by (auto simp add: statusHeader_def Let_def)
next
  case (Cons l pre)
  then have "\<not> statusHeader l" and "\<forall>l \<in> set pre. \<not> statusHeader l"
    by simp_all
  from Cons.IH [OF this(2) Cons.prems(2), of "Suc i"] this(1) show ?case
    by (auto simp add: statusHeader_def Let_def)
qed

lemma skipTable_ge: "i \<le> skipTable i ls"
proof (induction ls arbitrary: i)
  case Nil
  show ?case by simp
next
  case (Cons l ls)
  show ?case
    using Cons.IH [of "Suc i"] by simp
qed

lemma skipTable_rows:
  assumes "\<forall>l \<in> set rows. includes_str l [pipe]"
    and "rest = [] \<or> \<not> includes_str (hd rest) [pipe]"
  shows "skipTable i (rows @ rest) = i + length rows"
  using assms
proof (induction rows arbitrary: i)
  case Nil
  then show ?case by (cases rest) auto
next
  case (Cons l rows)
  then show ?case by simp
qed

text \<open>
  A table whose header has a status column and is not phase related gives no phase, and
  the scan goes on at the first line after it.
\<close>

lemma parseTableStartingFrom_rejected:
  assumes "start \<le> length pre" and "\<forall>l \<in> set (drop start pre). \<not> statusHeader l"
    and "statusHeader hdr" and "\<not> phaseRelated hdr"
    and "\<forall>l \<in> set rows. includes_str l [pipe]"
    and "rest = [] \<or> \<not> includes_str (hd rest) [pipe]"
  shows "parseTableStartingFrom e (pre @ hdr # rows @ rest) start dir p
           = ([], length pre + 1 + length rows)"
proof -
  obtain k where "findHeader start (drop start pre @ hdr # rows @ rest)
      = Some (readHeader (start + length (drop start pre)) (headerCols hdr) k)"
    using findHeader_first [OF assms(2,3)] by blast
  with assms(1) have h: "findHeader start (drop start (pre @ hdr # rows @ rest))
      = Some (readHeader (length pre) (headerCols hdr) k)"
    by simp
  have rej: "phaseColIndex (readHeader (length pre) (headerCols hdr) k) = -1
      \<and> nameColIndex (readHeader (length pre) (headerCols hdr) k) = -1
      \<and> descColIndex (readHeader (length pre) (headerCols hdr) k) = -1"
    using assms(4) by (simp add: readHeader_rejected)
  have "skipTable (Suc (length pre)) (drop (Suc (length pre)) (pre @ hdr # rows @ rest))
      = Suc (length pre) + length rows"
    using skipTable_rows [OF assms(5,6)] by simp
  with h rej show ?thesis
    by (simp add: parseTableStartingFrom_def readHeader_index)
qed

lemma scanTables_skips_rejected:
  assumes "start \<le> length pre" and "\<forall>l \<in> set (drop start pre). \<not> statusHeader l"
    and "statusHeader hdr" and "\<not> phaseRelated hdr"
    and "\<forall>l \<in> set rows. includes_str l [pipe]"
    and "rest = [] \<or> \<not> includes_str (hd rest) [pipe]"
  shows "scanTables e (pre @ hdr # rows @ rest) dir p start
           = scanTables e (pre @ hdr # rows @ rest) dir p (length pre + 1 + length rows)"
  using assms(1)
  by (subst scanTables.simps)
     (simp add: parseTableStartingFrom_rejected [OF assms] del: scanTables.simps)

lemma parseTableStartingFrom_all_rejected:
  assumes "\<forall>l \<in> set lines. statusHeader l \<longrightarrow> \<not> phaseRelated l"
  shows "fst (parseTableStartingFrom e lines start dir p) = []"
proof (cases "findHeader start (drop start lines)")
  case None
  then show ?thesis
    by (simp add: parseTableStartingFrom_def)
next
  case (Some h)
  from findHeader_Some [OF Some] obtain l k where
    l: "l \<in> set (drop start lines)" "statusHeader l" "h = readHeader (headerIndex h) (headerCols l) k"
    by blast
  from l(1) have "l \<in> set lines"
    by (rule in_set_dropD)
  with assms l(2) have "\<not> phaseRelated l"
    by blast
  then have "phaseColIndex h = -1 \<and> nameColIndex h = -1 \<and> descColIndex h = -1"
    using readHeader_rejected [of "headerIndex h" l k] l(3) by simp
  with Some show ?thesis
    by (simp add: parseTableStartingFrom_def)
qed

lemma scanTables_all_rejected:
  assumes "\<forall>l \<in> set lines. statusHeader l \<longrightarrow> \<not> phaseRelated l"
  shows "scanTables e lines dir p start = []"
  using assms
proof (induction e lines dir p start rule: scanTables.induct)
  case (1 e lines dir p start)
  note none = parseTableStartingFrom_all_rejected [OF "1.prems", of e start dir p]
  show ?case
  proof (cases "start < length lines \<and> \<not> snd (parseTableStartingFrom e lines start dir p) \<le> start")
    case True
    then have "scanTables e lines dir p (snd (parseTableStartingFrom e lines start dir p)) = []"
      using none "1.prems" by (intro "1.IH" [OF _ refl]) simp_all
    with True none show ?thesis
      by (subst scanTables.simps) (simp add: Let_def del: scanTables.simps)
  next
    case False
    with none show ?thesis
      by (subst scanTables.simps) (auto simp add: Let_def simp del: scanTables.simps)
  qed
qed

text \<open>A document in which no status header is phase related has no multi-column table.\<close>

lemma parseMultiColumnTable_no_header:
  "\<forall>l \<in> set (split_on newline content). statusHeader l \<longrightarrow> \<not> phaseRelated l \<Longrightarrow>
     parseMultiColumnTable e content dir p = []"
  by (simp add: parseMultiColumnTable_def scanTables_all_rejected del: scanTables.simps)

text \<open>
  The scan does go on: in a plan whose phase table comes after a rejected table, the
  multi-column strategy returns the phases of the second table.
\<close>

lemma twoTables_lines:
  "split_on newline twoTablesDoc
     = [] @ asc ''| Gap | Status |'' # [asc ''|-----|--------|'', asc ''| Logging | Pending |'']
       @ [[], asc ''| # | Phase | Status |'', asc ''|---|-------|--------|'', asc ''| 1 | Setup | Done |'']"
  by code_simp

lemma twoTables_header:
  "statusHeader (asc ''| Gap | Status |'')" "\<not> phaseRelated (asc ''| Gap | Status |'')"
  "\<forall>l \<in> set [asc ''|-----|--------|'', asc ''| Logging | Pending |'']. includes_str l [pipe]"
  "\<not> includes_str (hd [[], asc ''| # | Phase | Status |'', asc ''|---|-------|--------|'', asc ''| 1 | Setup | Done |'']) [pipe]"
  by code_simp+

lemma twoTables_second:
  "scanTables e (split_on newline twoTablesDoc) dir p 3
     = [newPhase 1 (asc ''Setup'') Completed p (asc ''Setup'')]"
  by code_simp

lemma scanTables_second_table:
  "parseMultiColumnTable e twoTablesDoc dir p = [newPhase 1 (asc ''Setup'') Completed p (asc ''Setup'')]"
proof -
  have blank: "\<not> includes_str [] [pipe]"
    by (simp add: includes_str_def)
  have n: "length ([]::jsstring list) + 1
             + length [asc ''|-----|--------|'', asc ''| Logging | Pending |''] = 3"
    by simp
  have "scanTables e (split_on newline twoTablesDoc) dir p 0
      = scanTables e (split_on newline twoTablesDoc) dir p 3"
    unfolding twoTables_lines n [symmetric]
    by (rule scanTables_skips_rejected) (simp_all add: twoTables_header blank)
  then show ?thesis
    by (simp only: parseMultiColumnTable_def twoTables_second)
qed

subsection \<open>The scenario of the specification\<close>

lemma dep_multi: "parseMultiColumnTable e dependencyDoc dir p = []"
  by code_simp

lemma so_multi: "parseMultiColumnTable e statusOnlyDoc dir p = []"
  by code_simp

lemma so_skip: "parseTableStartingFrom e (split_on newline statusOnlyDoc) 0 dir p = ([], 6)"
  by code_simp

lemma dep_link: "parseLinkFirstTable e dependencyDoc dir = []"
  by code_simp

lemma so_link: "parseLinkFirstTable e statusOnlyDoc dir = []"
  by code_simp

lemma dep_num: "parseNumberedListWithStatus dependencyDoc p
    = [newPhase 1 (asc ''Database Schema'') Completed p (asc ''Database Schema'')]"
  by code_simp

lemma so_num: "parseNumberedListWithStatus statusOnlyDoc p
    = [newPhase 1 (asc ''Database Schema'') Completed p (asc ''Database Schema'')]"
  by code_simp

lemma dep_meta: "extractFromOverviewTable dependencyDoc = None" "extractFromInlineMetadata dependencyDoc = None"
  "startsWith (trim dependencyDoc) (asc ''---'') = False"
  by code_simp+

lemma so_meta: "extractFromOverviewTable statusOnlyDoc = None" "extractFromInlineMetadata statusOnlyDoc = None"
  "startsWith (trim statusOnlyDoc) (asc ''---'') = False"
  by code_simp+

lemma extractPhaseMetadata_nothing:
  assumes "files e p = File doc" and "extractFromOverviewTable doc = None"
    and "extractFromInlineMetadata doc = None" and "startsWith (trim doc) (asc ''---'') = False"
  shows "extractPhaseMetadata e p = Inr None"
  using assms
  by (simp add: extractPhaseMetadata_def access_def readFile_def extractFromFrontmatter_def)

lemma enrichPhase_nothing:
  "extractPhaseMetadata e (file_path ph) = Inr None \<Longrightarrow> enrichPhase e ph = ph"
  by (simp add: enrichPhase_def)

lemma newPhase_file: "file_path (newPhase n nm st f l) = f"
  by (simp add: newPhase_def)

text \<open>
  With the rows of the repository's fixture, which hold no link, the plan with the
  dependency table and the plan with a table that has a status column and no phase, name
  or description column both parse to the one phase of the numbered list, whatever the
  environment and the path of the plan; the second table is rejected and the scan goes
  on at the line after it, line 6.
\<close>

lemma dependency_fixtures_parse:
  assumes "files e p = File dependencyDoc \<or> files e p = File statusOnlyDoc"
  shows "parsePlanTable e p
           = Inr [newPhase 1 (asc ''Database Schema'') Completed p (asc ''Database Schema'')]
         \<and> parseTableStartingFrom e (split_on newline statusOnlyDoc) 0 (dirname p) p = ([], 6)"
proof
  let ?ph = "newPhase 1 (asc ''Database Schema'') Completed p (asc ''Database Schema'')"
  from assms show "parsePlanTable e p = Inr [?ph]"
  proof
    assume f: "files e p = File dependencyDoc"
    then have "extractPhaseMetadata e p = Inr None"
      by (rule extractPhaseMetadata_nothing) (rule dep_meta)+
    then have "enrichPhase e ?ph = ?ph"
      by (simp add: enrichPhase_nothing newPhase_file)
    with f show ?thesis
      by (simp add: parsePlanTable_def readFile_def dep_multi dep_link dep_num
          enrichPhasesWithFileMetadata_def)
  next
    assume f: "files e p = File statusOnlyDoc"
    then have "extractPhaseMetadata e p = Inr None"
      by (rule extractPhaseMetadata_nothing) (rule so_meta)+
    then have "enrichPhase e ?ph = ?ph"
      by (simp add: enrichPhase_nothing newPhase_file)
    with f show ?thesis
      by (simp add: parsePlanTable_def readFile_def so_multi so_link so_num
          enrichPhasesWithFileMetadata_def)
  qed
next
  show "parseTableStartingFrom e (split_on newline statusOnlyDoc) 0 (dirname p) p = ([], 6)"
    by (rule so_skip)
qed

lemma linkRows_strategies:
  "parseMultiColumnTable e linkRowsDoc dir p = []"
  "parseNumberedListWithStatus linkRowsDoc p
     = [newPhase 1 (asc ''Database Schema'') Completed p (asc ''Database Schema'')]"
  by code_simp+

text \<open>
  C2. The claim: a plan that holds the dependency table of the specification and, after
  it, the numbered list line parses to exactly one phase, Database Schema, completed,
  and to no phase named None. It does not when the rows of the table link their phases:
  the multi-column strategy finds no table, as claimed, but the link-first strategy, which
  reads no header, takes the row \<open>| [01](./p01.md) | None | 09 (once 02 is done) |\<close> for
  a phase, its third cell holding the word \<open>done\<close>. The result is one phase named None,
  completed, and the numbered list is never tried.
\<close>

theorem dependency_table_link_rows:
  "parsePlanTable linkRowsEnv (asc ''/ws/plans/d/plan.md'')
     = Inr [newPhase 1 (asc ''None'') Completed (asc ''/ws/plans/d/p01.md'') (asc ''Phase 01'')]
   \<and> parseLinkFirstTable linkRowsEnv linkRowsDoc (asc ''/ws/plans/d'')
     = [newPhase 1 (asc ''None'') Completed (asc ''/ws/plans/d/p01.md'') (asc ''Phase 01'')]"
  by code_simp

section \<open>Progress of a plan\<close>

subsection \<open>The double precision arithmetic\<close>

text \<open>
  The rounding of a quotient to a double is off by at most the quotient times \<open>2^-53\<close>,
  so \<open>(c / t) * 100\<close> in double precision is closer to \<open>100 * c / t\<close> than \<open>1 / (2 * t)\<close>
  for a list of up to \<open>2^44\<close> phases, and \<open>Math.round\<close> of it is the nearest integer to
  \<open>100 * c / t\<close> unless that lies exactly half-way between two integers.
\<close>

lemma powi_pos: "0 < (2::real) powi e"
  by simp

lemma scaleDown_pos: "0 < d \<Longrightarrow> 0 < snd (scaleDown n d e)"
  by (simp add: scaleDown_def)

lemma scaleDown_fst_pos: "0 < n \<Longrightarrow> 0 < fst (scaleDown n d e)"
  by (simp add: scaleDown_def)

lemma scaleDown_ratio:
  assumes "0 < d"
  shows "real_of_int (fst (scaleDown n d e)) / real_of_int (snd (scaleDown n d e))
           = (real_of_int n / real_of_int d) / 2 powi e"
proof (cases "0 \<le> e")
  case True
  then show ?thesis
    by (simp add: scaleDown_def power_int_def)
next
  case False
  then show ?thesis
    by (simp add: scaleDown_def power_int_def power_inverse field_simps)
qed

lemma roundNearestEven_error:
  assumes "0 < d"
  shows "\<bar>real_of_int (roundNearestEven n d) - real_of_int n / real_of_int d\<bar> \<le> 1 / 2"
proof -
  define q where "q = n div d"
  define r where "r = n mod d"
  have n: "n = d * q + r" by (simp add: q_def r_def)
  have r: "0 \<le> r" "r < d" using assms by (simp_all add: r_def)
  have frac: "real_of_int n / real_of_int d = real_of_int q + real_of_int r / real_of_int d"
    using assms by (simp add: n field_simps)
  have rd: "0 \<le> real_of_int r / real_of_int d" "real_of_int r / real_of_int d < 1"
    using r assms by simp_all
  show ?thesis
  proof (cases "d < 2 * r \<or> (2 * r = d \<and> odd q)")
    case True
    then have res: "roundNearestEven n d = q + 1"
      by (simp add: roundNearestEven_def q_def r_def Let_def)
    from True have "d \<le> 2 * r" by auto
    then have "real_of_int d \<le> 2 * real_of_int r" by linarith
    then have "1 / 2 \<le> real_of_int r / real_of_int d"
      using assms by (simp add: field_simps)
    with rd show ?thesis
      by (simp add: res frac)
  next
    case False
    then have res: "roundNearestEven n d = q"
      by (simp add: roundNearestEven_def q_def r_def Let_def)
    from False have "2 * r \<le> d" by auto
    then have "2 * real_of_int r \<le> real_of_int d" by linarith
    then have "real_of_int r / real_of_int d \<le> 1 / 2"
      using assms by (simp add: field_simps)
    with rd show ?thesis
      by (simp add: res frac)
  qed
qed

lemma bitlen_lower: "0 < n \<Longrightarrow> 2 powi (bitlen n - 1) \<le> real_of_int n"
proof -
  assume n: "0 < n"
  then have b: "1 \<le> bitlen n" by (simp add: bitlen_alt_def)
  from bitlen_bounds [OF n] have "2 ^ nat (bitlen n - 1) \<le> n" by simp
  then have "real_of_int (2 ^ nat (bitlen n - 1)) \<le> real_of_int n" by linarith
  with b show ?thesis by (simp add: power_int_def)
qed

lemma bitlen_upper: "0 < n \<Longrightarrow> real_of_int n < 2 powi (bitlen n)"
proof -
  assume n: "0 < n"
  from bitlen_bounds [OF n] have "n < 2 ^ nat (bitlen n)" by simp
  then have "real_of_int n < real_of_int (2 ^ nat (bitlen n))" by linarith
  then show ?thesis using bitlen_nonneg [of n] by (simp add: power_int_def)
qed

lemma floorLog2_lower:
  assumes "0 < n" and "0 < d"
  shows "2 powi (floorLog2 n d) \<le> real_of_int n / real_of_int d"
proof -
  define b where "b = bitlen n - bitlen d"
  define s where "s = scaleDown n d b"
  have ratio: "real_of_int (fst s) / real_of_int (snd s) = (real_of_int n / real_of_int d) / 2 powi b"
    unfolding s_def by (rule scaleDown_ratio [OF assms(2)])
  have sp: "0 < snd s" unfolding s_def by (rule scaleDown_pos [OF assms(2)])
  show ?thesis
  proof (cases "snd s \<le> fst s")
    case True
    then have fl: "floorLog2 n d = b"
      by (simp add: floorLog2_def Let_def b_def s_def)
    from True sp have "1 \<le> real_of_int (fst s) / real_of_int (snd s)" by simp
    with ratio have "1 \<le> (real_of_int n / real_of_int d) / 2 powi b" by simp
    then have "1 * 2 powi b \<le> real_of_int n / real_of_int d"
      by (subst (asm) pos_le_divide_eq) simp_all
    then show ?thesis
      by (simp add: fl)
  next
    case False
    then have fl: "floorLog2 n d = b - 1"
      by (simp add: floorLog2_def Let_def b_def s_def)
    have "2 powi (b - 1) = 2 powi (bitlen n - 1) / (2::real) powi (bitlen d)"
      by (simp add: b_def power_int_diff)
    also have "\<dots> \<le> real_of_int n / 2 powi (bitlen d)"
      using bitlen_lower [OF assms(1)] by (simp add: divide_right_mono)
    also have "\<dots> \<le> real_of_int n / real_of_int d"
      using bitlen_upper [OF assms(2)] assms by (simp add: frac_le)
    finally show ?thesis by (simp add: fl)
  qed
qed


lemma toDouble_error:
  assumes "0 < n" and "0 < d"
  shows "\<bar>valueOf (toDouble n d) - real_of_int n / real_of_int d\<bar>
          \<le> (real_of_int n / real_of_int d) / 2 ^ 53"
proof -
  define v where "v = real_of_int n / real_of_int d"
  define e where "e = floorLog2 n d - 52"
  define s where "s = scaleDown n d e"
  define mm where "mm = roundNearestEven (fst s) (snd s)"
  have td: "toDouble n d = (mm, e)"
    by (simp add: toDouble_def Let_def e_def s_def mm_def)
  have sp: "0 < snd s" unfolding s_def by (rule scaleDown_pos [OF assms(2)])
  have ratio: "real_of_int (fst s) / real_of_int (snd s) = v / 2 powi e"
    unfolding s_def v_def by (rule scaleDown_ratio [OF assms(2)])
  have "\<bar>real_of_int mm - v / 2 powi e\<bar> \<le> 1 / 2"
    using roundNearestEven_error [OF sp, of "fst s"] by (simp add: mm_def ratio)
  then have "\<bar>real_of_int mm - v / 2 powi e\<bar> * 2 powi e \<le> 1 / 2 * 2 powi e"
    by (intro mult_right_mono) simp_all
  moreover have "\<bar>real_of_int mm - v / 2 powi e\<bar> * 2 powi e = \<bar>real_of_int mm * 2 powi e - v\<bar>"
  proof -
    have "\<bar>real_of_int mm - v / 2 powi e\<bar> * 2 powi e = \<bar>(real_of_int mm - v / 2 powi e) * 2 powi e\<bar>"
      by (simp add: abs_mult)
    also have "(real_of_int mm - v / 2 powi e) * 2 powi e = real_of_int mm * 2 powi e - v"
      by (simp add: field_simps)
    finally show ?thesis .
  qed
  ultimately have err: "\<bar>valueOf (toDouble n d) - v\<bar> \<le> 2 powi e / 2"
    by (simp add: td valueOf_def)
  have "2 powi e = 2 powi (floorLog2 n d) / (2::real) ^ 52"
    by (simp add: e_def power_int_diff)
  also have "\<dots> \<le> v / 2 ^ 52"
    using floorLog2_lower [OF assms] by (simp add: v_def divide_right_mono)
  finally have "2 powi e / 2 \<le> v / 2 ^ 53"
    by simp
  with err show ?thesis
    by (simp add: v_def)
qed

lemma mathRound_floor: "mathRound x = \<lfloor>valueOf x + 1 / 2\<rfloor>"
proof -
  define s where "s = scaleDown (fst x) 1 (- snd x)"
  have sp: "0 < snd s" unfolding s_def by (rule scaleDown_pos) simp
  have ratio: "real_of_int (fst s) / real_of_int (snd s) = valueOf x"
    unfolding s_def by (simp add: scaleDown_ratio valueOf_def power_int_minus field_simps)
  have "valueOf x + 1 / 2 = real_of_int (2 * fst s + snd s) / real_of_int (2 * snd s)"
    using sp by (simp add: ratio [symmetric] field_simps)
  then have "\<lfloor>valueOf x + 1 / 2\<rfloor> = (2 * fst s + snd s) div (2 * snd s)"
    by (simp only: floor_divide_of_int_eq)
  then show ?thesis
    by (simp add: mathRound_def Let_def s_def)
qed

lemma timesHundred_value:
  assumes "0 < fst x"
  shows "\<bar>valueOf (timesHundred x) - 100 * valueOf x\<bar> \<le> (100 * valueOf x) / 2 ^ 53"
proof -
  define s where "s = scaleDown (100 * fst x) 1 (- snd x)"
  have sp: "0 < snd s" unfolding s_def by (rule scaleDown_pos) simp
  have fp: "0 < fst s" unfolding s_def using assms by (intro scaleDown_fst_pos) simp
  have ratio: "real_of_int (fst s) / real_of_int (snd s) = 100 * valueOf x"
    unfolding s_def by (simp add: scaleDown_ratio valueOf_def power_int_minus field_simps)
  have "timesHundred x = toDouble (fst s) (snd s)"
    by (simp add: timesHundred_def Let_def s_def)
  with toDouble_error [OF fp sp] ratio show ?thesis
    by simp
qed

lemma valueOf_pos_iff: "0 < valueOf x \<longleftrightarrow> 0 < fst x"
proof -
  have "\<not> (2::real) powi snd x < 0"
    using powi_pos [of "snd x"] by linarith
  then show ?thesis
    by (simp add: valueOf_def zero_less_mult_iff)
qed

lemma percentage_close:
  assumes "0 < c" and "c \<le> t" and "t \<le> 2 ^ 44"
  shows "\<bar>valueOf (timesHundred (toDouble (int c) (int t))) - 100 * real c / real t\<bar>
           < 1 / (2 * real t)"
proof -
  define q where "q = real c / real t"
  define x where "x = valueOf (toDouble (int c) (int t))"
  define y where "y = valueOf (timesHundred (toDouble (int c) (int t)))"
  define eps where "eps = 1 / (2::real) ^ 53"
  from assms have t: "0 < t" by simp
  have q: "0 < q" "q \<le> 1" using assms t by (simp_all add: q_def)
  have eps: "0 < eps" by (simp add: eps_def)
  have "\<bar>x - q\<bar> \<le> q / 2 ^ 53"
    using toDouble_error [of "int c" "int t"] assms t by (simp add: x_def q_def)
  then have xqe: "\<bar>x - q\<bar> \<le> q * eps" by (simp add: eps_def)
  have "q * eps \<le> 1 * eps" using q eps by (intro mult_right_mono) simp_all
  with xqe have xq: "\<bar>x - q\<bar> \<le> eps" by simp
  have "q * eps < q * 1" using q by (intro mult_strict_left_mono) (simp_all add: eps_def)
  with xqe have xpos: "0 < x" by linarith
  then have "0 < fst (toDouble (int c) (int t))"
    by (simp add: x_def valueOf_pos_iff)
  from timesHundred_value [OF this] have "\<bar>y - 100 * x\<bar> \<le> (100 * x) / 2 ^ 53"
    by (simp add: x_def y_def)
  then have yx: "\<bar>y - 100 * x\<bar> \<le> 100 * x * eps" by (simp add: eps_def)
  from xq q have xup: "x \<le> 1 + eps" by linarith
  then have "100 * x * eps \<le> 100 * (1 + eps) * eps"
    using eps by (intro mult_right_mono mult_left_mono) simp_all
  with yx have yx': "\<bar>y - 100 * x\<bar> \<le> 100 * (1 + eps) * eps" by linarith
  have "y - 100 * q = (y - 100 * x) + 100 * (x - q)" by simp
  then have "\<bar>y - 100 * q\<bar> \<le> \<bar>y - 100 * x\<bar> + \<bar>100 * (x - q)\<bar>"
    by (simp only: abs_triangle_ineq)
  moreover have "\<bar>100 * (x - q)\<bar> = 100 * \<bar>x - q\<bar>"
    by (simp only: abs_mult abs_numeral)
  ultimately have "\<bar>y - 100 * q\<bar> \<le> \<bar>y - 100 * x\<bar> + 100 * \<bar>x - q\<bar>"
    by (simp only:)
  with yx' xq have "\<bar>y - 100 * q\<bar> \<le> 100 * (1 + eps) * eps + 100 * eps"
    by linarith
  also have "\<dots> < 1 / 2 ^ 45" by (simp add: eps_def)
  also have "\<dots> \<le> 1 / (2 * real t)"
  proof -
    from assms(3) have "real t \<le> 2 ^ 44" by (metis of_nat_le_iff of_nat_numeral of_nat_power)
    then have "2 * real t \<le> 2 ^ 45" by simp
    with t show ?thesis by (intro divide_left_mono) simp_all
  qed
  finally show ?thesis by (simp add: y_def q_def)
qed

lemma percentageOf_rounds:
  assumes "0 < t" and "c \<le> t" and "t \<le> 2 ^ 44"
  shows "roundHalfUp (100 * int c) (int t) - 1 \<le> percentageOf c t
         \<and> percentageOf c t \<le> roundHalfUp (100 * int c) (int t)
         \<and> ((200 * int c + int t) mod (2 * int t) \<noteq> 0
              \<longrightarrow> percentageOf c t = roundHalfUp (100 * int c) (int t))"
proof (cases "c = 0")
  case True
  with assms show ?thesis
    by (simp add: percentageOf_def roundHalfUp_def)
next
  case False
  then have c: "0 < c" by simp
  define k where "k = (200 * int c + int t) div (2 * int t)"
  define r where "r = (200 * int c + int t) mod (2 * int t)"
  define w where "w = valueOf (timesHundred (toDouble (int c) (int t))) + 1 / 2"
  define z where "z = 100 * real c / real t + 1 / 2"
  have rk: "roundHalfUp (100 * int c) (int t) = k"
    by (simp add: roundHalfUp_def k_def)
  have pw: "percentageOf c t = \<lfloor>w\<rfloor>"
    using assms(1) c by (simp add: percentageOf_def mathRound_floor w_def)
  have r: "0 \<le> r" "r < 2 * int t" using assms(1) by (simp_all add: r_def)
  have "200 * int c + int t = 2 * int t * k + r" by (simp add: k_def r_def)
  then have "real_of_int (200 * int c + int t) = real_of_int (2 * int t * k + r)" by simp
  then have "200 * real c + real t = 2 * real t * real_of_int k + real_of_int r" by simp
  then have z: "z = real_of_int k + real_of_int r / (2 * real t)"
    using assms(1) by (simp add: z_def field_simps)
  have close: "\<bar>w - z\<bar> < 1 / (2 * real t)"
    using percentage_close [OF c assms(2,3)] by (simp add: w_def z_def)
  have tp: "0 < 2 * real t" using assms(1) by simp
  have up: "w < real_of_int k + 1"
  proof -
    from r have "real_of_int r + 1 \<le> 2 * real t" by linarith
    then have "(real_of_int r + 1) / (2 * real t) \<le> 1" using tp by simp
    moreover have "w < z + 1 / (2 * real t)" using close by linarith
    ultimately show ?thesis by (simp add: z add_divide_distrib)
  qed
  have low: "real_of_int k - 1 < w"
  proof -
    have "1 / (2 * real t) \<le> 1"
      using assms(1) by simp
    moreover have "z - 1 / (2 * real t) < w" using close by linarith
    moreover have "0 \<le> real_of_int r / (2 * real t)" using r tp by simp
    ultimately show ?thesis by (simp add: z)
  qed
  have a: "k - 1 \<le> \<lfloor>w\<rfloor>" using low by (simp add: le_floor_iff)
  have b: "\<lfloor>w\<rfloor> \<le> k" using up by (simp add: floor_le_iff)
  have e: "\<lfloor>w\<rfloor> = k" if "r \<noteq> 0"
  proof -
    from that r have "1 \<le> r" by simp
    then have "1 \<le> real_of_int r" by linarith
    then have "1 / (2 * real t) \<le> real_of_int r / (2 * real t)"
      using tp by (intro divide_right_mono) simp_all
    moreover have "z - 1 / (2 * real t) < w" using close by linarith
    ultimately have "real_of_int k \<le> w" by (simp add: z)
    then have "k \<le> \<lfloor>w\<rfloor>" by (simp add: le_floor_iff)
    with b show ?thesis by simp
  qed
  from a b e show ?thesis
    by (simp add: rk pw r_def)
qed

lemma toDouble_same: "0 < n \<Longrightarrow> toDouble n n = (2 ^ 52, - 52)"
  by (simp add: toDouble_def floorLog2_def scaleDown_def roundNearestEven_def Let_def)

lemma percentageOf_all: "0 < n \<Longrightarrow> percentageOf n n = 100"
proof -
  assume "0 < n"
  have "mathRound (timesHundred (2 ^ 52, - 52)) = 100"
    by code_simp
  with \<open>0 < n\<close> show ?thesis
    by (simp add: percentageOf_def toDouble_same)
qed

subsection \<open>The counts of a plan\<close>

lemma forty_parse: "parsePlanTable fortyEnv (asc ''/ws/plans/c/plan.md'') = Inr fortyPhases"
  by code_simp

lemma forty_read: "readFile fortyEnv (asc ''/ws/plans/c/plan.md'') = Inr fortyPlan"
  by code_simp

lemma forty_counts:
  "length (filter (\<lambda>p. status p = Completed) fortyPhases) = 23" "length fortyPhases = 40"
  by (simp_all add: fortyPhases_def newPhase_def)

text \<open>
  In every record that plan extraction produces, \<open>completedCount\<close> is the number of
  completed phases of its list and \<open>totalCount\<close> the length of the list; \<open>percentage\<close>
  is 0 when \<open>totalCount\<close> is 0; otherwise (for a list of up to \<open>2^44\<close> phases) it is
  \<open>100 * completedCount / totalCount\<close> rounded to the nearest integer when that quotient
  is not exactly half-way between two integers, and when it is half-way, the integer
  above or the integer below.
\<close>

theorem plan_counts:
  assumes "extractPlanData e p = Inr d"
  shows "completedCount d = length (filter (\<lambda>ph. status ph = Completed) (phases d))
         \<and> totalCount d = length (phases d)
         \<and> (totalCount d = 0 \<longrightarrow> percentage d = 0)
         \<and> (0 < totalCount d \<and> totalCount d \<le> 2 ^ 44 \<longrightarrow>
               roundHalfUp (100 * int (completedCount d)) (int (totalCount d)) - 1 \<le> percentage d
               \<and> percentage d \<le> roundHalfUp (100 * int (completedCount d)) (int (totalCount d))
               \<and> ((200 * int (completedCount d) + int (totalCount d)) mod (2 * int (totalCount d)) \<noteq> 0
                    \<longrightarrow> percentage d
                        = roundHalfUp (100 * int (completedCount d)) (int (totalCount d))))"
proof -
  from assms have c: "completedCount d = length (filter (\<lambda>ph. status ph = Completed) (phases d))"
    and t: "totalCount d = length (phases d)"
    and pc: "percentage d = percentageOf (completedCount d) (totalCount d)"
    by (auto simp add: extractPlanData_def Let_def split: sum.splits)
  have z: "totalCount d = 0 \<longrightarrow> percentage d = 0"
    by (simp add: pc percentageOf_def)
  from c t have le: "completedCount d \<le> totalCount d"
    by simp
  have r: "0 < totalCount d \<and> totalCount d \<le> 2 ^ 44 \<longrightarrow>
               roundHalfUp (100 * int (completedCount d)) (int (totalCount d)) - 1 \<le> percentage d
               \<and> percentage d \<le> roundHalfUp (100 * int (completedCount d)) (int (totalCount d))
               \<and> ((200 * int (completedCount d) + int (totalCount d)) mod (2 * int (totalCount d)) \<noteq> 0
                    \<longrightarrow> percentage d
                        = roundHalfUp (100 * int (completedCount d)) (int (totalCount d)))"
    using percentageOf_rounds [OF _ le] unfolding pc by blast
  from c t z r show ?thesis
    by blast
qed

theorem plan_counts_witness:
  "extractPlanData overrideEnv (asc ''/ws/plans/a/plan.md'')
     = Inr \<lparr>plan_path = asc ''/ws/plans/a/plan.md'',
            phases = [newPhase 1 (asc ''Setup'') Completed (asc ''/ws/plans/a/phase-01-x.md'') (asc ''Phase 1'')],
            completedCount = 1, totalCount = 1, percentage = 100\<rparr>"
proof -
  let ?d = "\<lparr>plan_path = asc ''/ws/plans/a/plan.md'',
            phases = [newPhase 1 (asc ''Setup'') Completed (asc ''/ws/plans/a/phase-01-x.md'') (asc ''Phase 1'')],
            completedCount = 1, totalCount = 1, percentage = percentageOf 1 1\<rparr>"
  have e: "extractPlanData overrideEnv (asc ''/ws/plans/a/plan.md'') = Inr ?d"
    by (simp add: extractPlanData_def override_parse override_read newPhase_def)
  have r: "roundHalfUp (100 * int 1) (int 1) = 100" "(200 * int 1 + int 1) mod (2 * int 1) \<noteq> (0::int)"
    by (simp_all add: roundHalfUp_def)
  from plan_counts [OF e] r have "percentage ?d = 100"
    by simp
  with e show ?thesis
    by simp
qed

text \<open>
  Half-way values are not rounded one way: 1 of 8, which is 12.5, gives 13, and 29 of
  200, which is 14.5, gives 14.
\<close>

lemma percentageOf_ties: "percentageOf 1 8 = 13" "percentageOf 29 200 = 14"
  by code_simp+

text \<open>
  C8. The claim: the percentage of a record is \<open>100 * completedCount / totalCount\<close>,
  rounded. For a plan of 40 phases with 23 completed the quotient is 57.5 and its
  rounding 58, up or to even; the code divides before it multiplies, \<open>(23 / 40) * 100\<close>
  in double precision is a little below 57.5, and the record holds 57. The counts of the
  record are as claimed.
\<close>

theorem percentage_not_rounded:
  "extractPlanData fortyEnv (asc ''/ws/plans/c/plan.md'')
     = Inr \<lparr>plan_path = asc ''/ws/plans/c/plan.md'', phases = fortyPhases,
            completedCount = 23, totalCount = 40, percentage = 57\<rparr>
   \<and> roundHalfUp (100 * 23) 40 = 58"
proof -
  have "percentageOf 23 40 = 57" "roundHalfUp (100 * 23) 40 = 58"
    by code_simp+
  then show ?thesis
    by (simp add: extractPlanData_def forty_parse forty_read forty_counts)
qed


end
